theory Spec2Isabelle
  imports Main
begin

section \<open>Strings of the platform\<close>

text \<open>
  A JavaScript string is a sequence of UTF-16 code units; \<open>length\<close> counts code
  units. A code unit is modelled as a natural number (values below \<open>65536\<close> are the
  code units proper), so that the texts of requests, of the model's replies and of JSON
  escapes (a backslash, \<open>u\<close> and four hexadecimal digits) all live in one type.
  \<open>str ''abc''\<close> is the string of an ASCII literal.
\<close>

type_synonym jsstring = "nat list"

abbreviation str :: "string \<Rightarrow> jsstring" where
  "str s \<equiv> map of_char s"

text \<open>
  \<open>String.prototype.trim\<close> and the regular-expression class \<open>\s\<close> use the same set:
  ECMAScript WhiteSpace and LineTerminator (TAB, LF, VT, FF, CR, SP, NBSP, U+1680,
  U+2000 to U+200A, U+2028, U+2029, U+202F, U+205F, U+3000, U+FEFF).
\<close>

definition isWhiteSpace :: "nat \<Rightarrow> bool" where
  "isWhiteSpace c \<longleftrightarrow>
     c \<in> {9, 10, 11, 12, 13, 32, 160, 5760, 8232, 8233, 8239, 8287, 12288, 65279}
     \<or> (8192 \<le> c \<and> c \<le> 8202)"

definition trim :: "jsstring \<Rightarrow> jsstring" where
  "trim s = rev (dropWhile isWhiteSpace (rev (dropWhile isWhiteSpace s)))"

text \<open>
  \<open>String.prototype.toLowerCase\<close> converts with the case tables of the Unicode
  version the engine is built with, and the result can be longer than the string (the
  one code unit U+0130 becomes two). Those tables are not part of the repository: where
  the routes lowercase a text, the conversion is a parameter (the field
  \<open>toLowerCase\<close> of the collaborators below), and what is proved holds for every
  conversion.
\<close>

text \<open>\<open>Array.prototype.join\<close> on an array of strings.\<close>

fun join :: "jsstring \<Rightarrow> jsstring list \<Rightarrow> jsstring" where
  "join sep [] = []"
| "join sep [x] = x"
| "join sep (x # y # ys) = x @ sep @ join sep (y # ys)"

text \<open>\<open>String.prototype.includes\<close>: the needle occurs at some position.\<close>

fun includes_str :: "jsstring \<Rightarrow> jsstring \<Rightarrow> bool" where
  "includes_str [] needle = (needle = [])"
| "includes_str (c # cs) needle =
     (take (length needle) (c # cs) = needle \<or> includes_str cs needle)"

section \<open>Text Extractor (lib/utils/blocknote-to-text.ts)\<close>

text \<open>
  The interfaces \<open>InlineContent\<close> and \<open>Block\<close> of the source; an optional field
  is an \<open>option\<close>.
\<close>

datatype inlineContent =
  InlineContent (itype: jsstring) (itext: "jsstring option") (icontent: "inlineContent list option")

datatype block =
  Block (btype: "jsstring option") (bcontent: "inlineContent list option")
        (children: "block list option")

text \<open>
  \<open>if (inline.text)\<close> holds for a present, non-empty string; \<open>if (inline.content)\<close>
  holds for every present array, the empty one included.
\<close>

fun extractInlineText :: "inlineContent \<Rightarrow> jsstring" where
  "extractInlineText (InlineContent ty txt cont) =
     (if txt \<noteq> None \<and> txt \<noteq> Some [] then the txt
      else (case cont of
              Some cs \<Rightarrow> concat (map extractInlineText cs)
            | None \<Rightarrow> []))"

text \<open>
  \<open>extractTextFromBlocks\<close> with the body of its \<open>for\<close> loop as \<open>pushBlock\<close>: the
  lines one block pushes onto \<open>lines\<close>. The line feed is code unit 10.
\<close>

fun extractTextFromBlocks :: "block list \<Rightarrow> jsstring"
  and pushBlock :: "block \<Rightarrow> jsstring list" where
  "extractTextFromBlocks blocks =
     (if blocks = [] then [] else join [10] (concat (map pushBlock blocks)))"
| "pushBlock (Block ty cont ch) =
     (case cont of
        Some cs \<Rightarrow> (let lineText = concat (map extractInlineText cs)
                   in if trim lineText \<noteq> [] then [lineText] else [])
      | None \<Rightarrow> [])
     @
     (case ch of
        Some bs \<Rightarrow> (let childText = extractTextFromBlocks bs
                   in if trim childText \<noteq> [] then [childText] else [])
      | None \<Rightarrow> [])"

subsection \<open>The contract of the extractor, in the words of the specification\<close>

text \<open>
  An inline content item is either literal text or a nested inline sequence. The
  literal texts an item carries, from left to right: its own text when it has one, the
  literal texts of the items of its nested sequence otherwise.
\<close>

fun spec_literals :: "inlineContent \<Rightarrow> jsstring list" where
  "spec_literals (InlineContent ty txt cont) =
     (case txt of
        Some (c # cs) \<Rightarrow> [c # cs]
      | _ \<Rightarrow> concat (map spec_literals (case cont of Some items \<Rightarrow> items | None \<Rightarrow> [])))"

text \<open>
  The inline content of a block, as one text: the literal texts of its items, one after
  the other. Absent content is the empty sequence.
\<close>

fun spec_inlineText :: "block \<Rightarrow> jsstring" where
  "spec_inlineText (Block ty cont ch) =
     concat (concat (map spec_literals (case cont of Some items \<Rightarrow> items | None \<Rightarrow> [])))"

text \<open>
  One line per block whose inline content carries non-whitespace text, the lines of
  its children after its own line, recursively. Absent children are the empty sequence.
\<close>

fun spec_lines :: "block \<Rightarrow> jsstring list" where
  "spec_lines (Block ty cont ch) =
     (if \<exists>c \<in> set (spec_inlineText (Block ty cont ch)). \<not> isWhiteSpace c
      then [spec_inlineText (Block ty cont ch)] else [])
     @ concat (map spec_lines (case ch of Some bs \<Rightarrow> bs | None \<Rightarrow> []))"

text \<open>The lines of all the blocks, joined by single line feeds.\<close>

definition spec_extract :: "block list \<Rightarrow> jsstring" where
  "spec_extract blocks = join [10] (concat (map spec_lines blocks))"

text \<open>No block of the tree carries non-whitespace text.\<close>

fun no_text :: "block \<Rightarrow> bool" where
  "no_text (Block ty cont ch) \<longleftrightarrow>
     (\<forall>c \<in> set (spec_inlineText (Block ty cont ch)). isWhiteSpace c)
     \<and> (\<forall>b \<in> set (case ch of Some bs \<Rightarrow> bs | None \<Rightarrow> []). no_text b)"

text \<open>
  Blocks to try the extractor on: a paragraph of one text item, with and without
  children, and a paragraph whose one item is a link around two text items.
\<close>

definition textItem :: "string \<Rightarrow> inlineContent" where
  "textItem s = InlineContent (str ''text'') (Some (str s)) None"

definition linkItem :: "inlineContent list \<Rightarrow> inlineContent" where
  "linkItem items = InlineContent (str ''link'') None (Some items)"

definition paragraphBlock :: "inlineContent list \<Rightarrow> block list option \<Rightarrow> block" where
  "paragraphBlock items ch = Block (Some (str ''paragraph'')) (Some items) ch"

section \<open>JSON values and \<open>JSON.parse\<close>\<close>

text \<open>
  The values a JSON text denotes. A number keeps its lexeme: no handler computes with
  one. An object is its members in the order of the text; a later member of the same
  name replaces an earlier one when the object is read (\<open>memberOf\<close>).
\<close>

datatype json =
    JNull
  | JBool bool
  | JNumber jsstring
  | JString jsstring
  | JArray "json list"
  | JObject "(jsstring \<times> json) list"

definition memberOf :: "(jsstring \<times> json) list \<Rightarrow> jsstring \<Rightarrow> json option" where
  "memberOf members name = map_of (rev members) name"

text \<open>
  \<open>JSON.parse\<close> is the recursive-descent parser of the JSON grammar (ECMA-404). A
  procedure returns the value it read with the rest of the text, a syntax error, or
  \<open>OutOfFuel\<close>: every call spends one unit of a fuel that bounds the recursion, and
  \<open>JSON_parse\<close> starts with more than any text can use (lemma \<open>JSON_parse_fuel\<close>).
\<close>

datatype 'a parsed = Parsed 'a jsstring | SyntaxError | OutOfFuel

definition isJsonWs :: "nat \<Rightarrow> bool" where
  "isJsonWs c \<longleftrightarrow> c = 32 \<or> c = 9 \<or> c = 10 \<or> c = 13"

definition skipWs :: "jsstring \<Rightarrow> jsstring" where
  "skipWs s = dropWhile isJsonWs s"

definition isDigit :: "nat \<Rightarrow> bool" where
  "isDigit c \<longleftrightarrow> 48 \<le> c \<and> c \<le> 57"

definition hexVal :: "nat \<Rightarrow> nat option" where
  "hexVal c =
     (if 48 \<le> c \<and> c \<le> 57 then Some (c - 48)
      else if 97 \<le> c \<and> c \<le> 102 then Some (c - 87)
      else if 65 \<le> c \<and> c \<le> 70 then Some (c - 55)
      else None)"

fun hex4 :: "jsstring \<Rightarrow> nat option" where
  "hex4 [a, b, c, d] =
     (case (hexVal a, hexVal b, hexVal c, hexVal d) of
        (Some w, Some x, Some y, Some z) \<Rightarrow> Some (((w * 16 + x) * 16 + y) * 16 + z)
      | _ \<Rightarrow> None)"
| "hex4 _ = None"

text \<open>The single-character escapes: quote, backslash, slash, b, f, n, r, t.\<close>

definition unescape :: "nat \<Rightarrow> nat option" where
  "unescape e =
     (if e = 34 then Some 34 else if e = 92 then Some 92 else if e = 47 then Some 47
      else if e = 98 then Some 8 else if e = 102 then Some 12 else if e = 110 then Some 10
      else if e = 114 then Some 13 else if e = 116 then Some 9 else None)"

text \<open>
  The characters of a string after its opening quote, up to the closing quote: a
  control character (below U+0020) is a syntax error, a backslash starts an escape.
\<close>

fun parseChars :: "jsstring \<Rightarrow> jsstring \<Rightarrow> (jsstring \<times> jsstring) option" where
  "parseChars acc [] = None"
| "parseChars acc (c # cs) =
     (if c = 34 then Some (rev acc, cs)
      else if c = 92 then
        (case cs of
           [] \<Rightarrow> None
         | e # r \<Rightarrow>
             if e = 117 then
               (case hex4 (take 4 r) of
                  Some u \<Rightarrow> parseChars (u # acc) (drop 4 r)
                | None \<Rightarrow> None)
             else
               (case unescape e of
                  Some u \<Rightarrow> parseChars (u # acc) r
                | None \<Rightarrow> None))
      else if c < 32 then None
      else parseChars (c # acc) cs)"

text \<open>
  A number: an optional minus, an integer part without a leading zero (or the single
  digit zero), an optional fraction with at least one digit, an optional exponent with
  at least one digit.
\<close>

definition dropMinus :: "jsstring \<Rightarrow> jsstring" where
  "dropMinus s = (case s of c # cs \<Rightarrow> if c = 45 then cs else s | [] \<Rightarrow> s)"

definition intPart :: "jsstring \<Rightarrow> jsstring" where
  "intPart s = (case s of c # cs \<Rightarrow> if c = 48 then [c] else takeWhile isDigit s | [] \<Rightarrow> [])"

definition fracPart :: "jsstring \<Rightarrow> jsstring" where
  "fracPart s = (case s of c # cs \<Rightarrow> if c = 46 then c # takeWhile isDigit cs else [] | [] \<Rightarrow> [])"

definition expPart :: "jsstring \<Rightarrow> jsstring" where
  "expPart s =
     (case s of
        c # cs \<Rightarrow>
          if c = 101 \<or> c = 69 then
            (case cs of
               d # ds \<Rightarrow> if d = 43 \<or> d = 45 then c # d # takeWhile isDigit ds
                         else c # takeWhile isDigit cs
             | [] \<Rightarrow> [c])
          else []
      | [] \<Rightarrow> [])"

definition parseNumber :: "jsstring \<Rightarrow> (jsstring \<times> jsstring) option" where
  "parseNumber s =
     (let s1 = dropMinus s;
          ip = intPart s1;
          s2 = drop (length ip) s1;
          fr = fracPart s2;
          s3 = drop (length fr) s2;
          ex = expPart s3;
          s4 = drop (length ex) s3
      in if ip = [] \<or> fr = [46] \<or> (ex \<noteq> [] \<and> \<not> isDigit (last ex)) then None
         else Some (take (length s - length s4) s, s4))"

fun parseValue :: "nat \<Rightarrow> jsstring \<Rightarrow> json parsed"
  and parseElements :: "nat \<Rightarrow> jsstring \<Rightarrow> (json list) parsed"
  and parseMembers :: "nat \<Rightarrow> jsstring \<Rightarrow> ((jsstring \<times> json) list) parsed" where
  "parseValue 0 s = OutOfFuel"
| "parseValue (Suc n) s =
     (case skipWs s of
        [] \<Rightarrow> SyntaxError
      | c # cs \<Rightarrow>
          if c = 91 then
            (case skipWs cs of
               [] \<Rightarrow> SyntaxError
             | d # ds \<Rightarrow>
                 if d = 93 then Parsed (JArray []) ds
                 else (case parseElements n cs of
                         Parsed es r \<Rightarrow> Parsed (JArray es) r
                       | SyntaxError \<Rightarrow> SyntaxError
                       | OutOfFuel \<Rightarrow> OutOfFuel))
          else if c = 123 then
            (case skipWs cs of
               [] \<Rightarrow> SyntaxError
             | d # ds \<Rightarrow>
                 if d = 125 then Parsed (JObject []) ds
                 else (case parseMembers n cs of
                         Parsed ms r \<Rightarrow> Parsed (JObject ms) r
                       | SyntaxError \<Rightarrow> SyntaxError
                       | OutOfFuel \<Rightarrow> OutOfFuel))
          else if c = 34 then
            (case parseChars [] cs of
               Some (v, r) \<Rightarrow> Parsed (JString v) r
             | None \<Rightarrow> SyntaxError)
          else if take 4 (c # cs) = str ''true'' then Parsed (JBool True) (drop 3 cs)
          else if take 5 (c # cs) = str ''false'' then Parsed (JBool False) (drop 4 cs)
          else if take 4 (c # cs) = str ''null'' then Parsed JNull (drop 3 cs)
          else (case parseNumber (c # cs) of
                  Some (lexeme, r) \<Rightarrow> Parsed (JNumber lexeme) r
                | None \<Rightarrow> SyntaxError))"
| "parseElements 0 s = OutOfFuel"
| "parseElements (Suc n) s =
     (case parseValue n s of
        Parsed v r \<Rightarrow>
          (case skipWs r of
             [] \<Rightarrow> SyntaxError
           | c # cs \<Rightarrow>
               if c = 44 then
                 (case parseElements n cs of
                    Parsed vs r' \<Rightarrow> Parsed (v # vs) r'
                  | SyntaxError \<Rightarrow> SyntaxError
                  | OutOfFuel \<Rightarrow> OutOfFuel)
               else if c = 93 then Parsed [v] cs
               else SyntaxError)
      | SyntaxError \<Rightarrow> SyntaxError
      | OutOfFuel \<Rightarrow> OutOfFuel)"
| "parseMembers 0 s = OutOfFuel"
| "parseMembers (Suc n) s =
     (case skipWs s of
        [] \<Rightarrow> SyntaxError
      | q # qs \<Rightarrow>
          if q \<noteq> 34 then SyntaxError
          else
            (case parseChars [] qs of
               None \<Rightarrow> SyntaxError
             | Some (name, r0) \<Rightarrow>
                 (case skipWs r0 of
                    [] \<Rightarrow> SyntaxError
                  | k # ks \<Rightarrow>
                      if k \<noteq> 58 then SyntaxError
                      else
                        (case parseValue n ks of
                           Parsed v r \<Rightarrow>
                             (case skipWs r of
                                [] \<Rightarrow> SyntaxError
                              | c # cs \<Rightarrow>
                                  if c = 44 then
                                    (case parseMembers n cs of
                                       Parsed ms r' \<Rightarrow> Parsed ((name, v) # ms) r'
                                     | SyntaxError \<Rightarrow> SyntaxError
                                     | OutOfFuel \<Rightarrow> OutOfFuel)
                                  else if c = 125 then Parsed [(name, v)] cs
                                  else SyntaxError)
                         | SyntaxError \<Rightarrow> SyntaxError
                         | OutOfFuel \<Rightarrow> OutOfFuel))))"

text \<open>
  \<open>JSON.parse\<close>: one value, with nothing but white space after it. \<open>None\<close> is the
  \<open>SyntaxError\<close> it throws.
\<close>

definition JSON_parse :: "jsstring \<Rightarrow> json option" where
  "JSON_parse s =
     (case parseValue (2 * length s + 1) s of
        Parsed v r \<Rightarrow> if skipWs r = [] then Some v else None
      | SyntaxError \<Rightarrow> None
      | OutOfFuel \<Rightarrow> None)"

section \<open>Response Reconciler for tags (lib/hono/routes/ai.routes.ts, POST /ai/tags)\<close>

subsection \<open>Strategy 1: a JSON array anywhere in the response\<close>

text \<open>
  \<open>rawResponse.match(/\[[\s\S]*?\]/)\<close>. The matcher tries the start positions from
  left to right. At a start position it needs an opening bracket (code unit 91); the
  lazy star then takes as few characters as it can, any character at all, until a
  closing bracket (93) follows. At the end of the text the attempt fails and the next
  start position is tried. \<open>lazyStarClose\<close> holds the text matched so far, reversed.
\<close>

fun lazyStarClose :: "jsstring \<Rightarrow> jsstring \<Rightarrow> jsstring option" where
  "lazyStarClose acc [] = None"
| "lazyStarClose acc (c # cs) =
     (if c = 93 then Some (rev (c # acc)) else lazyStarClose (c # acc) cs)"

fun matchJsonArray :: "jsstring \<Rightarrow> jsstring option" where
  "matchJsonArray [] = None"
| "matchJsonArray (c # cs) =
     (if c = 91 then
        (case lazyStarClose [c] cs of
           Some m \<Rightarrow> Some m
         | None \<Rightarrow> matchJsonArray cs)
      else matchJsonArray cs)"

text \<open>\<open>typeof t === "string" && t.trim()\<close>: a string with a character left after trimming.\<close>

fun isTagString :: "json \<Rightarrow> bool" where
  "isTagString (JString s) = (trim s \<noteq> [])"
| "isTagString _ = False"

fun stringOf :: "json \<Rightarrow> jsstring" where
  "stringOf (JString s) = s"
| "stringOf _ = []"

text \<open>
  The value of \<open>tags\<close> after strategy 1. A \<open>SyntaxError\<close> of \<open>JSON.parse\<close> is caught
  and leaves \<open>tags\<close> empty, as does a value that is not an array.
\<close>

definition jsonArrayTags :: "jsstring \<Rightarrow> jsstring list" where
  "jsonArrayTags rawResponse =
     (case matchJsonArray rawResponse of
        None \<Rightarrow> []
      | Some jsonMatch \<Rightarrow>
          (case JSON_parse jsonMatch of
             Some (JArray parsed) \<Rightarrow> map stringOf (take 5 (filter isTagString parsed))
           | _ \<Rightarrow> []))"

subsection \<open>Strategy 2: split on commas and newlines\<close>

text \<open>
  \<open>.replace(/```[\s\S]*?```/g, "")\<close>. Three backquotes (code unit 96), as few
  characters as possible, three backquotes: the whole span goes, the text between the
  fences with it. \<open>findFence s\<close> is the number of characters before the first fence of
  \<open>s\<close>. When no closing fence follows, the match fails at this position and the
  character stays.
\<close>

fun findFence :: "jsstring \<Rightarrow> nat option" where
  "findFence [] = None"
| "findFence (c # cs) =
     (if take 3 (c # cs) = [96, 96, 96] then Some 0
      else map_option Suc (findFence cs))"

fun removeFenced :: "jsstring \<Rightarrow> jsstring" where
  "removeFenced [] = []"
| "removeFenced (c # cs) =
     (if take 3 (c # cs) = [96, 96, 96] then
        (case findFence (drop 2 cs) of
           Some k \<Rightarrow> removeFenced (drop (2 + k + 3) cs)
         | None \<Rightarrow> c # removeFenced cs)
      else c # removeFenced cs)"

text \<open>
  \<open>.replace(/[*\-\d.]+\s*/g, " ")\<close>. A run of asterisks, hyphens, digits and full
  stops, as long as possible, with all the white space after it, becomes one space.
\<close>

definition isListMarker :: "nat \<Rightarrow> bool" where
  "isListMarker c \<longleftrightarrow> c = 42 \<or> c = 45 \<or> (48 \<le> c \<and> c \<le> 57) \<or> c = 46"

function replaceMarkers :: "jsstring \<Rightarrow> jsstring" where
  "replaceMarkers [] = []"
| "replaceMarkers (c # cs) =
     (if isListMarker c
      then 32 # replaceMarkers (dropWhile isWhiteSpace (dropWhile isListMarker cs))
      else c # replaceMarkers cs)"
  by pat_completeness auto
termination
proof (relation "measure length")
  fix c :: nat and cs :: jsstring
  have "length (dropWhile isWhiteSpace (dropWhile isListMarker cs)) \<le> length cs"
    by (rule order_trans[OF length_dropWhile_le length_dropWhile_le])
  then show "(dropWhile isWhiteSpace (dropWhile isListMarker cs), c # cs) \<in> measure length"
    by simp
qed simp_all

text \<open>\<open>.replace(/[\[\]"']/g, "")\<close>: brackets, double and single quotes go.\<close>

definition isQuoteOrBracket :: "nat \<Rightarrow> bool" where
  "isQuoteOrBracket c \<longleftrightarrow> c = 91 \<or> c = 93 \<or> c = 34 \<or> c = 39"

definition removeQuotesBrackets :: "jsstring \<Rightarrow> jsstring" where
  "removeQuotesBrackets s = filter (\<lambda>c. \<not> isQuoteOrBracket c) s"

text \<open>
  \<open>.split(/[,\n]+/)\<close>. A run of commas and line feeds separates two pieces; the piece
  before the first run and the piece after the last one are there even when empty, and
  the empty text splits into one empty piece. \<open>cur\<close> is the piece being read, reversed.
\<close>

definition isSeparator :: "nat \<Rightarrow> bool" where
  "isSeparator c \<longleftrightarrow> c = 44 \<or> c = 10"

function splitPieces :: "jsstring \<Rightarrow> jsstring \<Rightarrow> jsstring list" where
  "splitPieces cur [] = [rev cur]"
| "splitPieces cur (c # cs) =
     (if isSeparator c then rev cur # splitPieces [] (dropWhile isSeparator cs)
      else splitPieces (c # cur) cs)"
  by pat_completeness auto
termination
proof (relation "measure (\<lambda>(cur, s). length s)")
  fix cur :: jsstring and c :: nat and cs :: jsstring
  have "length (dropWhile isSeparator cs) \<le> length cs"
    by (rule length_dropWhile_le)
  then show "(([], dropWhile isSeparator cs), (cur, c # cs)) \<in> measure (\<lambda>(cur, s). length s)"
    by simp
qed simp_all

text \<open>
  The value of \<open>tags\<close> after strategy 2. \<open>lower\<close> is
  \<open>String.prototype.toLowerCase\<close> of the engine.
\<close>

definition splitTags :: "(jsstring \<Rightarrow> jsstring) \<Rightarrow> jsstring \<Rightarrow> jsstring list" where
  "splitTags lower rawResponse =
     take 5
       (filter (\<lambda>t. length t > 1 \<and> length t < 30)
          (map (\<lambda>t. lower (trim t))
             (splitPieces []
                (removeQuotesBrackets (replaceMarkers (removeFenced rawResponse))))))"

text \<open>Strategy 2 runs when strategy 1 left \<open>tags\<close> empty.\<close>

definition reconcileTags :: "(jsstring \<Rightarrow> jsstring) \<Rightarrow> jsstring \<Rightarrow> jsstring list" where
  "reconcileTags lower rawResponse =
     (let tags = jsonArrayTags rawResponse
      in if length tags = 0 then splitTags lower rawResponse else tags)"

subsection \<open>The two strategies, in the words of the specification\<close>

text \<open>
  The first balanced bracketed substring: from the first opening bracket to the closing
  bracket that brings the nesting depth back to zero.
\<close>

fun balancedFrom :: "nat \<Rightarrow> jsstring \<Rightarrow> jsstring \<Rightarrow> jsstring option" where
  "balancedFrom depth acc [] = None"
| "balancedFrom depth acc (c # cs) =
     (if c = 91 then balancedFrom (Suc depth) (c # acc) cs
      else if c = 93 then
        (if depth \<le> 1 then Some (rev (c # acc)) else balancedFrom (depth - 1) (c # acc) cs)
      else balancedFrom depth (c # acc) cs)"

definition spec_balancedList :: "jsstring \<Rightarrow> jsstring option" where
  "spec_balancedList raw =
     (case dropWhile (\<lambda>c. c \<noteq> 91) raw of
        [] \<Rightarrow> None
      | c # cs \<Rightarrow> balancedFrom 1 [c] cs)"

text \<open>An element that is a non-empty string.\<close>

fun isNonEmptyString :: "json \<Rightarrow> bool" where
  "isNonEmptyString (JString s) = (s \<noteq> [])"
| "isNonEmptyString _ = False"

definition spec_structuredTags :: "jsstring \<Rightarrow> jsstring list" where
  "spec_structuredTags raw =
     (case spec_balancedList raw of
        None \<Rightarrow> []
      | Some m \<Rightarrow>
          (case JSON_parse m of
             Some (JArray parsed) \<Rightarrow> map stringOf (take 5 (filter isNonEmptyString parsed))
           | _ \<Rightarrow> []))"

text \<open>
  The heuristic decomposition: the code-fence markers go (the three backquotes, not
  the text between two of them), the list-marker punctuation goes, the quote and bracket
  characters go; the rest is split on commas and newlines, each candidate trimmed and
  lowercased, kept when its length is strictly between 1 and 30, at most 5 of them.
\<close>

fun spec_stripFenceMarkers :: "jsstring \<Rightarrow> jsstring" where
  "spec_stripFenceMarkers [] = []"
| "spec_stripFenceMarkers (c # cs) =
     (if take 3 (c # cs) = [96, 96, 96] then spec_stripFenceMarkers (drop 2 cs)
      else c # spec_stripFenceMarkers cs)"

definition spec_heuristicTags :: "(jsstring \<Rightarrow> jsstring) \<Rightarrow> jsstring \<Rightarrow> jsstring list" where
  "spec_heuristicTags lower raw =
     take 5
       (filter (\<lambda>t. 1 < length t \<and> length t < 30)
          (map (\<lambda>t. lower (trim t))
             (splitPieces []
                (filter (\<lambda>c. \<not> isQuoteOrBracket c)
                   (filter (\<lambda>c. \<not> isListMarker c) (spec_stripFenceMarkers raw))))))"

section \<open>Prompts (lib/ai/prompts.ts)\<close>

text \<open>
  A prompt is the \<open>messages\<close> array of a chat completion: a system message and a user
  message. The system texts are the template literals of the source, a line feed being
  code unit 10.
\<close>

datatype role = System | User

record message =
  role :: role
  msgContent :: jsstring

definition summarizeSystem :: jsstring where
  "summarizeSystem =
     str ''You are a concise note summarizer. Your job is to read a note and produce a clear, '' @
     [10] @
     str ''informative summary in 2-3 sentences. Focus on the key points and main ideas. '' @
     [10] @ str ''Do NOT use markdown formatting. Just return plain text.''"

definition getSummarizePrompt :: "jsstring \<Rightarrow> jsstring \<Rightarrow> message list" where
  "getSummarizePrompt noteTitle noteContent =
     [\<lparr>role = System, msgContent = summarizeSystem\<rparr>,
      \<lparr>role = User,
       msgContent = str ''Note Title: '' @ noteTitle @ [10, 10] @ str ''Note Content:'' @ [10] @ noteContent\<rparr>]"

definition improveSystem :: jsstring where
  "improveSystem =
     str ''You are a professional writing assistant. Your job is to improve the given text by:'' @
     [10] @ str ''- Fixing grammar and spelling errors'' @ [10] @
     str ''- Improving clarity and readability  '' @ [10] @
     str ''- Better sentence structure and flow'' @ [10] @
     str ''- Keeping the original meaning and tone intact'' @ [10, 10] @
     str ''IMPORTANT RULES:'' @ [10] @ str ''- Return ONLY the improved text, nothing else'' @
     [10] @ str ''- Do NOT add explanations or comments'' @ [10] @
     str ''- Do NOT wrap in quotes or markdown'' @ [10] @
     str ''- Keep the same general length (don'' @ [39] @
     str ''t make it significantly longer or shorter)''"

text \<open>
  \<open>selection || content\<close>: the selection when it is a non-empty string, the content
  otherwise (\<open>None\<close> is \<open>undefined\<close>).
\<close>

definition selectionOrContent :: "jsstring option \<Rightarrow> jsstring \<Rightarrow> jsstring" where
  "selectionOrContent selection noteContent =
     (case selection of
        Some s \<Rightarrow> if s \<noteq> [] then s else noteContent
      | None \<Rightarrow> noteContent)"

definition getImprovePrompt :: "jsstring \<Rightarrow> jsstring option \<Rightarrow> message list" where
  "getImprovePrompt noteContent selection =
     (let textToImprove = selectionOrContent selection noteContent
      in [\<lparr>role = System, msgContent = improveSystem\<rparr>,
          \<lparr>role = User, msgContent = str ''Please improve this text:'' @ [10, 10] @ textToImprove\<rparr>])"

definition tagsSystem :: jsstring where
  "tagsSystem =
     str ''You are a tag generator for notes. Your job is to read a note and generate '' @
     [10] @ str ''3 to 5 short, relevant tags that describe the note'' @ [39] @
     str ''s topic and content.'' @ [10, 10] @ str ''IMPORTANT RULES:'' @ [10] @
     str ''- Return ONLY a valid JSON array of strings, nothing else'' @ [10] @
     str ''- Each tag should be 1-2 words, lowercase'' @ [10] @
     str ''- Tags should be descriptive and useful for categorization'' @ [10] @
     str ''- Example output: ['' @ [34] @ str ''javascript'' @ [34] @ str '', '' @ [34] @
     str ''web development'' @ [34] @ str '', '' @ [34] @ str ''react hooks'' @ [34] @
     str '']'' @ [10] @ str ''- Do NOT include explanations or any other text''"

definition getTagsPrompt :: "jsstring \<Rightarrow> jsstring \<Rightarrow> message list" where
  "getTagsPrompt noteTitle noteContent =
     [\<lparr>role = System, msgContent = tagsSystem\<rparr>,
      \<lparr>role = User,
       msgContent = str ''Note Title: '' @ noteTitle @ [10, 10] @ str ''Note Content:'' @ [10] @ noteContent\<rparr>]"

definition generateSystem :: jsstring where
  "generateSystem =
     str ''You are a creative and helpful writing assistant inside a note-taking app. '' @
     [10] @ str ''Your job is to generate high-quality text based on the user'' @ [39] @
     str ''s request. '' @ [10] @ str ''Keep the following in mind:'' @ [10] @
     str ''- Be helpful and provide valuable, well-structured information'' @ [10] @
     str ''- Use clear, professional yet conversational language'' @ [10] @
     str ''- If provided, use the note title and existing content to match the current style/context'' @
     [10] @ str ''- Do NOT add introductory or concluding remarks like '' @ [34] @
     str ''Here is the content you requested'' @ [34, 10] @
     str ''- Just return the generated text content directly.''"

text \<open>
  \<open>title\<close> and \<open>existingContent\<close> are strings when the route calls; an empty one is
  falsy. \<open>slice(0, 1000)\<close> keeps the first 1000 code units.
\<close>

definition getGeneratePrompt :: "jsstring \<Rightarrow> jsstring \<Rightarrow> jsstring \<Rightarrow> message list" where
  "getGeneratePrompt userPrompt noteTitle existingContent =
     (let systemContent =
            generateSystem
            @ (if noteTitle \<noteq> [] \<or> existingContent \<noteq> []
               then [10, 10] @ str ''Context for this note:'' @ [10]
                    @ (if noteTitle \<noteq> [] then str ''- Title: '' @ noteTitle @ [10] else [])
                    @ (if existingContent \<noteq> []
                       then str ''- Existing Content: '' @ take 1000 existingContent
                            @ str ''... (truncated)'' @ [10]
                       else [])
               else [])
      in [\<lparr>role = System, msgContent = systemContent\<rparr>,
          \<lparr>role = User, msgContent = str ''User Request: '' @ userPrompt\<rparr>])"

section \<open>Documents, the provider and the responses\<close>

subsection \<open>The document collection (lib/db/page.model.ts)\<close>

text \<open>
  A page of the \<open>Page\<close> collection, found under its \<open>_id\<close>. The six fields a
  request may set hold JSON values: the schema types \<open>title\<close>, \<open>icon\<close>,
  \<open>coverImage\<close> and \<open>summary\<close> as \<open>String\<close>, \<open>content\<close> as
  \<open>[Object]\<close> and \<open>tags\<close> as \<open>[String]\<close>, and the driver casts what a
  request sets to these types before it stores it. \<open>createdAt\<close> and
  \<open>updatedAt\<close> are left out, with the listing routes that sort by them.
\<close>

type_synonym objectId = nat

record page =
  userId :: objectId
  title :: json
  icon :: json
  coverImage :: json
  content :: json
  tags :: json
  summary :: json
  isFavorite :: bool
  isArchived :: bool

type_synonym collection = "objectId \<rightharpoonup> page"

text \<open>\<open>Page.findOne({ _id, userId })\<close>\<close>

definition findOne :: "objectId \<Rightarrow> objectId \<Rightarrow> collection \<Rightarrow> page option" where
  "findOne oid uid coll =
     (case coll oid of
        Some p \<Rightarrow> if userId p = uid then Some p else None
      | None \<Rightarrow> None)"

text \<open>\<open>Page.findByIdAndUpdate(id, update)\<close>: the filter is the \<open>_id\<close> alone.\<close>

definition findByIdAndUpdate :: "objectId \<Rightarrow> (page \<Rightarrow> page) \<Rightarrow> collection \<Rightarrow> collection" where
  "findByIdAndUpdate oid update coll =
     (case coll oid of
        Some p \<Rightarrow> coll(oid \<mapsto> update p)
      | None \<Rightarrow> coll)"

subsection \<open>What a handler can catch\<close>

text \<open>
  The value a \<open>catch\<close> clause receives: an \<open>Error\<close> with its message, or a value
  that is not an \<open>Error\<close>.
\<close>

datatype thrown = ErrorWith jsstring | NotAnError

text \<open>The \<open>TypeError\<close> of reading a property of \<open>null\<close>.\<close>

definition nullRead :: "string \<Rightarrow> thrown" where
  "nullRead name =
     ErrorWith (str ''Cannot read properties of null (reading '' @ [39] @ str name @ [39] @ str '')'')"

text \<open>
  The body of a request: \<open>await c.req.json()\<close> throws, or gives the value of the JSON
  text.
\<close>

datatype requestBody = Unreadable thrown | Decoded json

text \<open>
  \<open>body.name\<close> on a value that is not \<open>null\<close>: the member of an object,
  \<open>undefined\<close> (\<open>None\<close>) otherwise.
\<close>

definition property :: "json \<Rightarrow> string \<Rightarrow> json option" where
  "property b name = (case b of JObject members \<Rightarrow> memberOf members (str name) | _ \<Rightarrow> None)"

text \<open>\<open>typeof v === "string" ? v : d\<close>\<close>

definition stringOr :: "json option \<Rightarrow> jsstring \<Rightarrow> jsstring" where
  "stringOr v d = (case v of Some (JString s) \<Rightarrow> s | _ \<Rightarrow> d)"

subsection \<open>The completion provider (lib/ai/openai.ts) and the database driver\<close>

text \<open>
  The argument of \<open>openai.chat.completions.create\<close>; the temperature is in tenths.
\<close>

record chatRequest =
  model :: jsstring
  messages :: "message list"
  max_tokens :: nat
  temperature10 :: nat

definition modelName :: jsstring where
  "modelName = str ''arcee-ai/trinity-large-preview:free''"

text \<open>
  A call of the provider throws, or replies with
  \<open>response.choices[0]?.message?.content\<close>: a string, or nothing (\<open>None\<close>).
\<close>

datatype completion = Replied "jsstring option" | Threw thrown

text \<open>
  The collaborators of the routes: the provider, as the reply it gives to each request;
  the cast of an id string to an \<open>ObjectId\<close> by the database driver, which throws on
  a string that is not one; the cast of the values of a \<open>$set\<close> to the types of the
  schema by the same driver, which converts a value, or throws a \<open>CastError\<close> on one
  it cannot convert; \<open>connectDB\<close>, which returns (\<open>None\<close>) or throws; and
  \<open>String.prototype.toLowerCase\<close> of the engine.
\<close>

record env =
  provider :: "chatRequest \<Rightarrow> completion"
  castObjectId :: "jsstring \<Rightarrow> thrown + objectId"
  castUpdate :: "(string \<times> json) list \<Rightarrow> thrown + (string \<times> json) list"
  connectDB :: "thrown option"
  toLowerCase :: "jsstring \<Rightarrow> jsstring"

text \<open>
  The state the routes act on: the collection, and the requests sent to the provider,
  in the order of the calls.
\<close>

record world =
  pages :: collection
  aiCalls :: "chatRequest list"

subsection \<open>Responses\<close>

text \<open>
  The envelope \<open>{success, data?, error?, message?}\<close> with its status: a failure with
  its \<open>error\<close>, a success with its \<open>data\<close>, or a success with a \<open>message\<close>.
\<close>

datatype data =
    PageData objectId page
  | FavoriteData bool
  | ArchivedData bool
  | ResultText jsstring
  | ResultTags "jsstring list"

datatype payload = Failure string | Success data | SuccessMessage string

record response =
  status :: nat
  payload :: payload

definition failure :: "nat \<Rightarrow> string \<Rightarrow> response" where
  "failure code msg = \<lparr>status = code, payload = Failure msg\<rparr>"

definition success :: "nat \<Rightarrow> data \<Rightarrow> response" where
  "success code d = \<lparr>status = code, payload = Success d\<rparr>"

section \<open>AI routes (lib/hono/routes/ai.routes.ts)\<close>

text \<open>
  The \<open>catch\<close> clause of an AI route: 429 when the value is an \<open>Error\<close> whose message
  includes \<open>rate limit\<close>, 500 with the route's own message otherwise.
\<close>

definition aiCatch :: "string \<Rightarrow> thrown \<Rightarrow> response" where
  "aiCatch fallback e =
     (case e of
        ErrorWith m \<Rightarrow>
          if includes_str m (str ''rate limit'')
          then failure 429 ''AI rate limit reached. Please try again in a moment.''
          else failure 500 fallback
      | NotAnError \<Rightarrow> failure 500 fallback)"

text \<open>\<open>response.choices[0]?.message?.content?.trim() || ""\<close>\<close>

definition replyText :: "jsstring option \<Rightarrow> jsstring" where
  "replyText reply = (case reply of Some t \<Rightarrow> trim t | None \<Rightarrow> [])"

subsection \<open>POST /ai/summarize\<close>

definition summarizeRequest :: "json \<Rightarrow> chatRequest" where
  "summarizeRequest body =
     (let noteContent = stringOr (property body ''content'') [];
          noteTitle = stringOr (property body ''title'') (str ''Untitled'')
      in \<lparr>model = modelName,
          messages = getSummarizePrompt (if noteTitle \<noteq> [] then noteTitle else str ''Untitled'')
                       noteContent,
          max_tokens = 200, temperature10 = 3\<rparr>)"

definition postSummarize :: "env \<Rightarrow> requestBody \<Rightarrow> world \<Rightarrow> response \<times> world" where
  "postSummarize e rb w =
     (case rb of
        Unreadable err \<Rightarrow> (aiCatch ''Failed to generate summary'' err, w)
      | Decoded body \<Rightarrow>
          if body = JNull then (aiCatch ''Failed to generate summary'' (nullRead ''pageId''), w)
          else
            let pageId = stringOr (property body ''pageId'') [];
                noteContent = stringOr (property body ''content'') []
            in if pageId = [] \<or> noteContent = []
               then (failure 400 ''pageId and content are required'', w)
               else if length (trim noteContent) < 20
               then (failure 400 ''Note content is too short to summarize. Add more content!'', w)
               else
                 let w1 = w\<lparr>aiCalls := aiCalls w @ [summarizeRequest body]\<rparr>
                 in (case provider e (summarizeRequest body) of
                       Threw err \<Rightarrow> (aiCatch ''Failed to generate summary'' err, w1)
                     | Replied reply \<Rightarrow>
                         let generated = replyText reply
                         in if generated = []
                            then (failure 500 ''AI returned an empty response'', w1)
                            else
                              (case connectDB e of
                                 Some err \<Rightarrow> (aiCatch ''Failed to generate summary'' err, w1)
                               | None \<Rightarrow>
                                   (case castObjectId e pageId of
                                      Inl err \<Rightarrow> (aiCatch ''Failed to generate summary'' err, w1)
                                    | Inr oid \<Rightarrow>
                                        (success 200 (ResultText generated),
                                         w1\<lparr>pages :=
                                              findByIdAndUpdate oid
                                                (\<lambda>p. p\<lparr>summary := JString generated\<rparr>)
                                                (pages w1)\<rparr>)))))"

subsection \<open>POST /ai/improve\<close>

text \<open>
  \<open>selection\<close> is the body's \<open>selection\<close> when that is a string, \<open>undefined\<close>
  otherwise; \<open>textToImprove\<close> is \<open>selection || content\<close>.
\<close>

definition selectionOf :: "json \<Rightarrow> jsstring option" where
  "selectionOf body = (case property body ''selection'' of Some (JString s) \<Rightarrow> Some s | _ \<Rightarrow> None)"

definition textToImprove :: "json \<Rightarrow> jsstring" where
  "textToImprove body =
     selectionOrContent (selectionOf body) (stringOr (property body ''content'') [])"

definition improveRequest :: "json \<Rightarrow> chatRequest" where
  "improveRequest body =
     \<lparr>model = modelName,
      messages = getImprovePrompt (stringOr (property body ''content'') []) (selectionOf body),
      max_tokens = 2000, temperature10 = 4\<rparr>"

definition postImprove :: "env \<Rightarrow> requestBody \<Rightarrow> world \<Rightarrow> response \<times> world" where
  "postImprove e rb w =
     (case rb of
        Unreadable err \<Rightarrow> (aiCatch ''Failed to improve text'' err, w)
      | Decoded body \<Rightarrow>
          if body = JNull then (aiCatch ''Failed to improve text'' (nullRead ''content''), w)
          else if length (trim (textToImprove body)) < 5
          then (failure 400 ''Please provide more text to improve.'', w)
          else
            let w1 = w\<lparr>aiCalls := aiCalls w @ [improveRequest body]\<rparr>
            in (case provider e (improveRequest body) of
                  Threw err \<Rightarrow> (aiCatch ''Failed to improve text'' err, w1)
                | Replied reply \<Rightarrow>
                    let improved = replyText reply
                    in if improved = []
                       then (failure 500 ''AI returned an empty response'', w1)
                       else (success 200 (ResultText improved), w1)))"

subsection \<open>POST /ai/tags\<close>

definition tagsRequest :: "json \<Rightarrow> chatRequest" where
  "tagsRequest body =
     (let noteContent = stringOr (property body ''content'') [];
          noteTitle = stringOr (property body ''title'') (str ''Untitled'')
      in \<lparr>model = modelName,
          messages = getTagsPrompt (if noteTitle \<noteq> [] then noteTitle else str ''Untitled'')
                       noteContent,
          max_tokens = 100, temperature10 = 3\<rparr>)"

definition postTags :: "env \<Rightarrow> requestBody \<Rightarrow> world \<Rightarrow> response \<times> world" where
  "postTags e rb w =
     (case rb of
        Unreadable err \<Rightarrow> (aiCatch ''Failed to generate tags'' err, w)
      | Decoded body \<Rightarrow>
          if body = JNull then (aiCatch ''Failed to generate tags'' (nullRead ''pageId''), w)
          else
            let pageId = stringOr (property body ''pageId'') [];
                noteContent = stringOr (property body ''content'') []
            in if pageId = [] \<or> noteContent = []
               then (failure 400 ''pageId and content are required'', w)
               else if length (trim noteContent) < 10
               then (failure 400 ''Note content is too short to generate tags.'', w)
               else
                 let w1 = w\<lparr>aiCalls := aiCalls w @ [tagsRequest body]\<rparr>
                 in (case provider e (tagsRequest body) of
                       Threw err \<Rightarrow> (aiCatch ''Failed to generate tags'' err, w1)
                     | Replied reply \<Rightarrow>
                         let rawResponse = replyText reply
                         in if rawResponse = []
                            then (failure 500 ''AI returned empty response'', w1)
                            else
                              let newTags = reconcileTags (toLowerCase e) rawResponse
                              in if length newTags = 0
                                 then (failure 500 ''AI could not generate tags'', w1)
                                 else
                                   (case connectDB e of
                                      Some err \<Rightarrow> (aiCatch ''Failed to generate tags'' err, w1)
                                    | None \<Rightarrow>
                                        (case castObjectId e pageId of
                                           Inl err \<Rightarrow> (aiCatch ''Failed to generate tags'' err, w1)
                                         | Inr oid \<Rightarrow>
                                             (success 200 (ResultTags newTags),
                                              w1\<lparr>pages :=
                                                   findByIdAndUpdate oid
                                                     (\<lambda>p. p\<lparr>tags := JArray (map JString newTags)\<rparr>)
                                                     (pages w1)\<rparr>)))))"

subsection \<open>POST /ai/generate\<close>

definition generateRequest :: "json \<Rightarrow> chatRequest" where
  "generateRequest body =
     \<lparr>model = modelName,
      messages = getGeneratePrompt (stringOr (property body ''prompt'') [])
                   (stringOr (property body ''title'') [])
                   (stringOr (property body ''content'') []),
      max_tokens = 1500, temperature10 = 7\<rparr>"

definition postGenerate :: "env \<Rightarrow> requestBody \<Rightarrow> world \<Rightarrow> response \<times> world" where
  "postGenerate e rb w =
     (case rb of
        Unreadable err \<Rightarrow> (aiCatch ''Failed to generate content'' err, w)
      | Decoded body \<Rightarrow>
          if body = JNull then (aiCatch ''Failed to generate content'' (nullRead ''prompt''), w)
          else if trim (stringOr (property body ''prompt'') []) = []
          then (failure 400 ''Prompt is required'', w)
          else
            let w1 = w\<lparr>aiCalls := aiCalls w @ [generateRequest body]\<rparr>
            in (case provider e (generateRequest body) of
                  Threw err \<Rightarrow> (aiCatch ''Failed to generate content'' err, w1)
                | Replied reply \<Rightarrow>
                    let generated = replyText reply
                    in if generated = []
                       then (failure 500 ''AI returned an empty response'', w1)
                       else (success 200 (ResultText generated), w1)))"

section \<open>Page routes (lib/hono/routes/pages.routes.ts)\<close>

text \<open>
  Each route runs in a \<open>try\<close> whose \<open>catch\<close> answers 500 with the route's message,
  whatever was thrown. \<open>uid\<close> is the \<open>id\<close> of the session's user, an \<open>ObjectId\<close>
  of the authentication collaborator. The routes that list pages (\<open>GET /pages\<close>,
  \<open>/pages/search\<close>, \<open>/pages/trash\<close>) only read the collection and are not part of
  this development.
\<close>

subsection \<open>POST /pages\<close>

text \<open>
  \<open>Page.create\<close> inserts the document under the \<open>_id\<close> the driver generates for it
  (\<open>newId\<close>); an \<open>_id\<close> already in the collection is a duplicate-key error.
\<close>

definition postPage :: "env \<Rightarrow> objectId \<Rightarrow> objectId \<Rightarrow> requestBody \<Rightarrow> world \<Rightarrow> response \<times> world" where
  "postPage e uid newId rb w =
     (case connectDB e of
        Some err \<Rightarrow> (failure 500 ''Failed to create page'', w)
      | None \<Rightarrow>
          (case rb of
             Unreadable err \<Rightarrow> (failure 500 ''Failed to create page'', w)
           | Decoded body \<Rightarrow>
               if body = JNull then (failure 500 ''Failed to create page'', w)
               else
                 let created =
                       \<lparr>userId = uid,
                        title = JString (stringOr (property body ''title'') (str ''Untitled'')),
                        icon = (case property body ''icon'' of
                                  Some (JString s) \<Rightarrow> JString s
                                | _ \<Rightarrow> JNull),
                        coverImage = JNull,
                        content = JArray [],
                        tags = JArray [],
                        summary = JNull,
                        isFavorite = False,
                        isArchived = False\<rparr>
                 in if pages w newId \<noteq> None then (failure 500 ''Failed to create page'', w)
                    else (success 201 (PageData newId created),
                          w\<lparr>pages := (pages w)(newId \<mapsto> created)\<rparr>)))"

subsection \<open>GET /pages/:id\<close>

definition getPage :: "env \<Rightarrow> objectId \<Rightarrow> jsstring \<Rightarrow> world \<Rightarrow> response \<times> world" where
  "getPage e uid pageId w =
     (case connectDB e of
        Some err \<Rightarrow> (failure 500 ''Failed to fetch page'', w)
      | None \<Rightarrow>
          (case castObjectId e pageId of
             Inl err \<Rightarrow> (failure 500 ''Failed to fetch page'', w)
           | Inr oid \<Rightarrow>
               (case findOne oid uid (pages w) of
                  None \<Rightarrow> (failure 404 ''Page not found'', w)
                | Some p \<Rightarrow> (success 200 (PageData oid p), w))))"

subsection \<open>PATCH /pages/:id\<close>

definition allowedFields :: "string list" where
  "allowedFields = [''title'', ''icon'', ''coverImage'', ''content'', ''tags'', ''summary'']"

text \<open>
  \<open>key in body\<close> throws a \<open>TypeError\<close> on \<open>null\<close> and on a number, a string or a
  boolean; an array has none of the allowed keys.
\<close>

definition hasKeys :: "json \<Rightarrow> bool" where
  "hasKeys body = (case body of JObject members \<Rightarrow> True | JArray elements \<Rightarrow> True | _ \<Rightarrow> False)"

text \<open>\<open>validatedData\<close>: the allowed keys the body has, each with the body's value.\<close>

definition validatedData :: "json \<Rightarrow> (string \<times> json) list" where
  "validatedData body =
     concat (map (\<lambda>key. case property body key of Some v \<Rightarrow> [(key, v)] | None \<Rightarrow> [])
               allowedFields)"

text \<open>\<open>$set\<close> of one field, and of a list of fields with their values.\<close>

definition setField :: "string \<times> json \<Rightarrow> page \<Rightarrow> page" where
  "setField kv p =
     (if fst kv = ''title'' then p\<lparr>title := snd kv\<rparr>
      else if fst kv = ''icon'' then p\<lparr>icon := snd kv\<rparr>
      else if fst kv = ''coverImage'' then p\<lparr>coverImage := snd kv\<rparr>
      else if fst kv = ''content'' then p\<lparr>content := snd kv\<rparr>
      else if fst kv = ''tags'' then p\<lparr>tags := snd kv\<rparr>
      else if fst kv = ''summary'' then p\<lparr>summary := snd kv\<rparr>
      else p)"

definition setFields :: "(string \<times> json) list \<Rightarrow> page \<Rightarrow> page" where
  "setFields kvs p = fold setField kvs p"

text \<open>
  \<open>Page.findOneAndUpdate({ _id, userId }, { $set: validatedData }, { new: true })\<close>:
  the driver casts the \<open>_id\<close> and the values before it looks for the page, and a
  cast that throws leaves the collection as it is.
\<close>

definition patchPage :: "env \<Rightarrow> objectId \<Rightarrow> jsstring \<Rightarrow> requestBody \<Rightarrow> world \<Rightarrow> response \<times> world" where
  "patchPage e uid pageId rb w =
     (case connectDB e of
        Some err \<Rightarrow> (failure 500 ''Failed to update page'', w)
      | None \<Rightarrow>
          (case rb of
             Unreadable err \<Rightarrow> (failure 500 ''Failed to update page'', w)
           | Decoded body \<Rightarrow>
               if \<not> hasKeys body then (failure 500 ''Failed to update page'', w)
               else if length (validatedData body) = 0
               then (failure 400 ''No valid fields to update'', w)
               else
                 (case castObjectId e pageId of
                    Inl err \<Rightarrow> (failure 500 ''Failed to update page'', w)
                  | Inr oid \<Rightarrow>
                      (case castUpdate e (validatedData body) of
                         Inl err \<Rightarrow> (failure 500 ''Failed to update page'', w)
                       | Inr values \<Rightarrow>
                           (case findOne oid uid (pages w) of
                              None \<Rightarrow> (failure 404 ''Page not found'', w)
                            | Some p \<Rightarrow>
                                (success 200 (PageData oid (setFields values p)),
                                 w\<lparr>pages := (pages w)(oid \<mapsto> setFields values p)\<rparr>))))))"

subsection \<open>PATCH /pages/:id/favorite\<close>

definition patchFavorite :: "env \<Rightarrow> objectId \<Rightarrow> jsstring \<Rightarrow> world \<Rightarrow> response \<times> world" where
  "patchFavorite e uid pageId w =
     (case connectDB e of
        Some err \<Rightarrow> (failure 500 ''Failed to toggle favorite'', w)
      | None \<Rightarrow>
          (case castObjectId e pageId of
             Inl err \<Rightarrow> (failure 500 ''Failed to toggle favorite'', w)
           | Inr oid \<Rightarrow>
               (case findOne oid uid (pages w) of
                  None \<Rightarrow> (failure 404 ''Page not found'', w)
                | Some existingPage \<Rightarrow>
                    let saved = existingPage\<lparr>isFavorite := \<not> isFavorite existingPage\<rparr>
                    in (success 200 (FavoriteData (isFavorite saved)),
                        w\<lparr>pages := (pages w)(oid \<mapsto> saved)\<rparr>))))"

subsection \<open>PATCH /pages/:id/archive\<close>

definition patchArchive :: "env \<Rightarrow> objectId \<Rightarrow> jsstring \<Rightarrow> world \<Rightarrow> response \<times> world" where
  "patchArchive e uid pageId w =
     (case connectDB e of
        Some err \<Rightarrow> (failure 500 ''Failed to archive page'', w)
      | None \<Rightarrow>
          (case castObjectId e pageId of
             Inl err \<Rightarrow> (failure 500 ''Failed to archive page'', w)
           | Inr oid \<Rightarrow>
               (case findOne oid uid (pages w) of
                  None \<Rightarrow> (failure 404 ''Page not found'', w)
                | Some existingPage \<Rightarrow>
                    let toggled = existingPage\<lparr>isArchived := \<not> isArchived existingPage\<rparr>;
                        saved = (if isArchived toggled then toggled\<lparr>isFavorite := False\<rparr>
                                 else toggled)
                    in (success 200 (ArchivedData (isArchived saved)),
                        w\<lparr>pages := (pages w)(oid \<mapsto> saved)\<rparr>))))"

subsection \<open>DELETE /pages/:id\<close>

definition deletePage :: "env \<Rightarrow> objectId \<Rightarrow> jsstring \<Rightarrow> world \<Rightarrow> response \<times> world" where
  "deletePage e uid pageId w =
     (case connectDB e of
        Some err \<Rightarrow> (failure 500 ''Failed to delete page'', w)
      | None \<Rightarrow>
          (case castObjectId e pageId of
             Inl err \<Rightarrow> (failure 500 ''Failed to delete page'', w)
           | Inr oid \<Rightarrow>
               (case findOne oid uid (pages w) of
                  None \<Rightarrow> (failure 404 ''Page not found'', w)
                | Some p \<Rightarrow>
                    (\<lparr>status = 200, payload = SuccessMessage ''Page deleted permanently''\<rparr>,
                     w\<lparr>pages := (pages w)(oid := None)\<rparr>))))"

section \<open>The application (lib/hono/index.ts, auth.middleware.ts)\<close>

text \<open>
  A request: the user of its session, when it has a valid one; the route with the
  \<open>:id\<close> of its path; its body; and the \<open>_id\<close> the driver generates should the
  request create a page.
\<close>

datatype route =
    CreatePage
  | GetPage jsstring
  | UpdatePage jsstring
  | ToggleFavorite jsstring
  | ToggleArchive jsstring
  | DeletePage jsstring
  | Summarize
  | Improve
  | GenerateTags
  | Generate

record request =
  session :: "objectId option"
  route :: route
  body :: requestBody
  generatedId :: objectId

text \<open>
  \<open>authMiddleware\<close> runs before every route of both routers: without a session it
  answers 401 and the handler does not run.
\<close>

definition app :: "env \<Rightarrow> request \<Rightarrow> world \<Rightarrow> response \<times> world" where
  "app e rq w =
     (case session rq of
        None \<Rightarrow> (failure 401 ''Unauthorized. Please log in to continue.'', w)
      | Some uid \<Rightarrow>
          (case route rq of
             CreatePage \<Rightarrow> postPage e uid (generatedId rq) (body rq) w
           | GetPage pageId \<Rightarrow> getPage e uid pageId w
           | UpdatePage pageId \<Rightarrow> patchPage e uid pageId (body rq) w
           | ToggleFavorite pageId \<Rightarrow> patchFavorite e uid pageId w
           | ToggleArchive pageId \<Rightarrow> patchArchive e uid pageId w
           | DeletePage pageId \<Rightarrow> deletePage e uid pageId w
           | Summarize \<Rightarrow> postSummarize e (body rq) w
           | Improve \<Rightarrow> postImprove e (body rq) w
           | GenerateTags \<Rightarrow> postTags e (body rq) w
           | Generate \<Rightarrow> postGenerate e (body rq) w))"

subsection \<open>Words of the specification about requests and documents\<close>

text \<open>The number of non-whitespace characters of a text.\<close>

definition nonWhitespaceCount :: "jsstring \<Rightarrow> nat" where
  "nonWhitespaceCount s = length (filter (\<lambda>c. \<not> isWhiteSpace c) s)"

text \<open>Archived and favorite are not both true, for a page and for every page.\<close>

definition flagsExclusive :: "page \<Rightarrow> bool" where
  "flagsExclusive p \<longleftrightarrow> \<not> (isArchived p \<and> isFavorite p)"

definition allExclusive :: "collection \<Rightarrow> bool" where
  "allExclusive coll \<longleftrightarrow> (\<forall>oid p. coll oid = Some p \<longrightarrow> flagsExclusive p)"

section \<open>A concrete deployment\<close>

text \<open>
  Collaborators and documents to run the routes on. The cast accepts the 24
  hexadecimal digits of an \<open>ObjectId\<close> and throws a \<open>CastError\<close>, whose message
  quotes the value, on any other string; the provider replies with the same text to
  every request; the database is reachable.
\<close>

text \<open>
  The requests of this deployment set values that have the type of their path already
  (a string or \<open>null\<close> for a \<open>String\<close> path, an array of strings for
  \<open>tags\<close>, an array for \<open>content\<close>), and the cast leaves such a value as it is.
  Its cast throws on every other value; the driver converts some of those (a number
  into its decimal text), which no request here depends on.
\<close>

fun isTagText :: "json \<Rightarrow> bool" where
  "isTagText (JString s) = True"
| "isTagText v = False"

fun hasPathType :: "string \<times> json \<Rightarrow> bool" where
  "hasPathType (key, JString s) = (key \<noteq> ''tags'' \<and> key \<noteq> ''content'')"
| "hasPathType (key, JNull) = (key \<noteq> ''tags'' \<and> key \<noteq> ''content'')"
| "hasPathType (key, JArray elements) =
     (key = ''content'' \<or> (key = ''tags'' \<and> list_all isTagText elements))"
| "hasPathType (key, v) = False"

definition castTyped :: "(string \<times> json) list \<Rightarrow> thrown + (string \<times> json) list" where
  "castTyped kvs =
     (if list_all hasPathType kvs then Inr kvs
      else Inl (ErrorWith (str ''Cast failed'')))"

text \<open>
  The case conversion of this deployment moves \<open>A\<close> to \<open>Z\<close> to \<open>a\<close> to
  \<open>z\<close>: what \<open>String.prototype.toLowerCase\<close> does to a text of ASCII characters,
  whatever the Unicode version. The examples below give it such texts only.
\<close>

definition lowerASCII :: "jsstring \<Rightarrow> jsstring" where
  "lowerASCII s = map (\<lambda>c. if 65 \<le> c \<and> c \<le> 90 then c + 32 else c) s"

definition castHex24 :: "jsstring \<Rightarrow> thrown + objectId" where
  "castHex24 s =
     (if length s = 24 \<and> (\<forall>c \<in> set s. hexVal c \<noteq> None)
      then Inr (foldl (\<lambda>a c. 16 * a + the (hexVal c)) 0 s)
      else Inl (ErrorWith (str ''Cast to ObjectId failed for value '' @ [34] @ s @ [34]
                           @ str '' (type string) at path '' @ [34] @ str ''_id'' @ [34]
                           @ str '' for model '' @ [34] @ str ''Page'' @ [34])))"

definition replying :: "jsstring \<Rightarrow> env" where
  "replying reply =
     \<lparr>provider = (\<lambda>rq. Replied (Some reply)), castObjectId = castHex24,
      castUpdate = castTyped, connectDB = None, toLowerCase = lowerASCII\<rparr>"

text \<open>
  Two users. Alice owns the one page of the collection, a favorite, whose \<open>_id\<close> is
  written \<open>000000000000000000000010\<close>.
\<close>

definition alice :: objectId where
  "alice = 1"

definition bob :: objectId where
  "bob = 2"

definition alicePageId :: jsstring where
  "alicePageId = str ''000000000000000000000010''"

definition alicePage :: page where
  "alicePage =
     \<lparr>userId = alice, title = JString (str ''Plans''), icon = JNull, coverImage = JNull,
      content = JArray [], tags = JArray [], summary = JNull,
      isFavorite = True, isArchived = False\<rparr>"

definition aliceWorld :: world where
  "aliceWorld = \<lparr>pages = Map.empty(16 \<mapsto> alicePage), aiCalls = []\<rparr>"

text \<open>The body \<open>{pageId, content}\<close> of an AI request about Alice's page.\<close>

definition aiBody :: "jsstring \<Rightarrow> json" where
  "aiBody noteContent =
     JObject [(str ''pageId'', JString alicePageId), (str ''content'', JString noteContent)]"

definition requestOf :: "objectId \<Rightarrow> route \<Rightarrow> json \<Rightarrow> request" where
  "requestOf uid r b = \<lparr>session = Some uid, route = r, body = Decoded b, generatedId = 17\<rparr>"

text \<open>The body of an improve request about a note, with a value for \<open>selection\<close>.\<close>

definition improveBody :: "json \<Rightarrow> json" where
  "improveBody selection =
     JObject [(str ''pageId'', JString alicePageId),
              (str ''content'', JString (str ''The whole note.'')),
              (str ''selection'', selection)]"

text \<open>The body of a generate request.\<close>

definition generateBody :: json where
  "generateBody =
     JObject [(str ''pageId'', JString alicePageId), (str ''prompt'', JString (str ''Write a haiku''))]"

section \<open>Debounced Save Controller (components/editor/Editor.tsx)\<close>

text \<open>
  The editor component over a clock in milliseconds. \<open>saveTimer\<close> is the pending
  timeout of \<open>saveTimerRef\<close>: the time it is due and the \<open>blocks\<close> its callback has
  closed over; \<open>None\<close> when none is pending. \<open>liveBlocks\<close> is what \<open>onChange\<close>
  was last called with, and \<open>onSaveCalls\<close> are the calls of \<open>onSave\<close>, each with its
  time, in order; the page hands every one of them to \<open>PATCH /pages/:id\<close>.
\<close>

record editorState =
  now :: nat
  document :: "block list"
  saveTimer :: "(nat \<times> block list) option"
  liveBlocks :: "block list"
  onSaveCalls :: "(nat \<times> block list) list"

text \<open>Time passes until \<open>t\<close>: a timeout that is due by then runs its callback.\<close>

definition passTime :: "nat \<Rightarrow> editorState \<Rightarrow> editorState" where
  "passTime t ed =
     (case saveTimer ed of
        Some (due, blocks) \<Rightarrow>
          if due \<le> t
          then ed\<lparr>now := max (now ed) t, saveTimer := None,
                  onSaveCalls := onSaveCalls ed @ [(due, blocks)]\<rparr>
          else ed\<lparr>now := max (now ed) t\<rparr>
      | None \<Rightarrow> ed\<lparr>now := max (now ed) t\<rparr>)"

text \<open>
  \<open>handleChange\<close>: read \<open>editor.document\<close>, call \<open>onChange\<close>, clear the pending
  timeout and set a new one, 1500 ms from now, whose callback saves the blocks just read.
\<close>

definition handleChange :: "editorState \<Rightarrow> editorState" where
  "handleChange ed =
     (let blocks = document ed
      in ed\<lparr>liveBlocks := blocks, saveTimer := Some (now ed + 1500, blocks)\<rparr>)"

text \<open>An edit at time \<open>t\<close> changes the document, and the editor calls \<open>handleChange\<close>.\<close>

definition edit :: "nat \<Rightarrow> block list \<Rightarrow> editorState \<Rightarrow> editorState" where
  "edit t newDocument ed = handleChange ((passTime t ed)\<lparr>document := newDocument\<rparr>)"

text \<open>The cleanup on unmount clears the pending timeout.\<close>

definition unmount :: "editorState \<Rightarrow> editorState" where
  "unmount ed = ed\<lparr>saveTimer := None\<rparr>"

fun edits :: "(nat \<times> block list) list \<Rightarrow> editorState \<Rightarrow> editorState" where
  "edits [] ed = ed"
| "edits ((t, d) # es) ed = edits es (edit t d ed)"

text \<open>
  Every edit of the sequence comes less than 1500 ms after the one before it, the first
  one after time \<open>t\<close>.
\<close>

fun rapidAfter :: "nat \<Rightarrow> (nat \<times> block list) list \<Rightarrow> bool" where
  "rapidAfter t [] = True"
| "rapidAfter t ((t', d) # es) = (t \<le> t' \<and> t' < t + 1500 \<and> rapidAfter t' es)"

text \<open>A document of one paragraph.\<close>

definition para :: "string \<Rightarrow> block list" where
  "para s = [Block (Some (str ''paragraph'')) (Some [InlineContent (str ''text'') (Some (str s)) None]) (Some [])]"

section \<open>The JSON parser never runs out of fuel\<close>

text \<open>
  Every procedure of the parser that returns a value has read at least one character,
  so the recursion is bounded by the length of the text and the fuel that
  \<open>JSON_parse\<close> starts with is never used up: \<open>None\<close> is a syntax error.
\<close>

lemma length_skipWs: "length (skipWs s) \<le> length s"
  by (simp add: skipWs_def length_dropWhile_le)

lemma skipWs_Cons_length: "skipWs s = c # cs \<Longrightarrow> length cs < length s"
  using length_skipWs[of s] by simp

lemma parseNumber_consumes:
  assumes "parseNumber s = Some (l, r)"
  shows "length r < length s"
proof -
  let ?s1 = "dropMinus s"
  let ?ip = "intPart ?s1"
  from assms have ip: "?ip \<noteq> []"
    by (auto simp: parseNumber_def Let_def split: if_splits)
  from assms have r: "length r \<le> length (drop (length ?ip) ?s1)"
    by (auto simp: parseNumber_def Let_def split: if_splits)
  from ip have "?s1 \<noteq> []" by (auto simp: intPart_def)
  with ip have "length (drop (length ?ip) ?s1) < length ?s1" by (cases ?ip) auto
  moreover have "length ?s1 \<le> length s" by (auto simp: dropMinus_def split: list.splits)
  ultimately show ?thesis using r by linarith
qed

lemma parseChars_consumes: "parseChars acc s = Some (v, r) \<Longrightarrow> length r < length s"
proof (induction acc s rule: parseChars.induct)
  case (1 acc)
  then show ?case by simp
next
  case (2 acc c cs)
  show ?case
  proof (cases "c = 34")
    case True
    with "2.prems" show ?thesis by simp
  next
    case q: False
    show ?thesis
    proof (cases "c = 92")
      case True
      show ?thesis
      proof (cases cs)
        case Nil
        with "2.prems" q True show ?thesis by simp
      next
        case (Cons e r0)
        show ?thesis
        proof (cases "e = 117")
          case u: True
          then obtain x where x: "hex4 (take 4 r0) = Some x"
            and p: "parseChars (x # acc) (drop 4 r0) = Some (v, r)"
            using "2.prems" q True Cons by (auto split: option.splits)
          from "2.IH"(1)[OF q True Cons u x p] show ?thesis
            using Cons by simp
        next
          case nu: False
          then obtain x where x: "unescape e = Some x"
            and p: "parseChars (x # acc) r0 = Some (v, r)"
            using "2.prems" q True Cons by (auto split: option.splits)
          from "2.IH"(2)[OF q True Cons nu x p] show ?thesis
            using Cons by simp
        qed
      qed
    next
      case False
      with "2.prems" q have c: "\<not> c < 32" and p: "parseChars (c # acc) cs = Some (v, r)"
        by (auto split: if_splits)
      from "2.IH"(3)[OF q False c p] show ?thesis by simp
    qed
  qed
qed

lemma parse_consumes:
  "parseValue n s = Parsed v r \<Longrightarrow> length r < length s"
  "parseElements n s = Parsed vs r' \<Longrightarrow> length r' < length s"
  "parseMembers n s = Parsed ms r'' \<Longrightarrow> length r'' < length s"
proof (induction n s and n s and n s arbitrary: v r and vs r' and ms r''
       rule: parseValue_parseElements_parseMembers.induct)
  case (1 s)
  then show ?case by simp
next
  case (2 n s)
  from "2.prems" obtain c cs where sk: "skipWs s = c # cs"
    by (cases "skipWs s") auto
  have len: "length cs < length s" by (rule skipWs_Cons_length[OF sk])
  have len': "length (c # cs) \<le> length s" using length_skipWs[of s] sk by simp
  consider (arr) "c = 91" | (obj) "c \<noteq> 91" "c = 123" | (strg) "c \<noteq> 91" "c \<noteq> 123" "c = 34"
    | (other) "c \<noteq> 91" "c \<noteq> 123" "c \<noteq> 34" by blast
  then show ?case
  proof cases
    case arr
    from "2.prems" sk arr obtain d ds where sk2: "skipWs cs = d # ds"
      by (cases "skipWs cs") auto
    show ?thesis
    proof (cases "d = 93")
      case True
      with "2.prems" sk arr sk2 have "r = ds" by simp
      with skipWs_Cons_length[OF sk2] len show ?thesis by simp
    next
      case False
      with "2.prems" sk arr sk2 obtain es where "parseElements n cs = Parsed es r"
        by (auto split: parsed.splits)
      from "2.IH"(1)[OF sk arr sk2 False this] len show ?thesis by simp
    qed
  next
    case obj
    from "2.prems" sk obj obtain d ds where sk2: "skipWs cs = d # ds"
      by (cases "skipWs cs") auto
    show ?thesis
    proof (cases "d = 125")
      case True
      with "2.prems" sk obj sk2 have "r = ds" by simp
      with skipWs_Cons_length[OF sk2] len show ?thesis by simp
    next
      case False
      with "2.prems" sk obj sk2 obtain es where "parseMembers n cs = Parsed es r"
        by (auto split: parsed.splits)
      from "2.IH"(2)[OF sk obj(1) obj(2) sk2 False this] len show ?thesis by simp
    qed
  next
    case strg
    with "2.prems" sk obtain w where "parseChars [] cs = Some (w, r)"
      by (auto split: option.splits)
    from parseChars_consumes[OF this] len show ?thesis by simp
  next
    case other
    have "length r \<le> length cs"
    proof (cases "take 4 (c # cs) = str ''true'' \<or> take 5 (c # cs) = str ''false''
                  \<or> take 4 (c # cs) = str ''null''")
      case True
      with "2.prems" sk other have "r = drop 3 cs \<or> r = drop 4 cs"
        by (auto split: if_splits)
      then show ?thesis by auto
    next
      case False
      with "2.prems" sk other obtain l where "parseNumber (c # cs) = Some (l, r)"
        by (auto split: option.splits)
      from parseNumber_consumes[OF this] show ?thesis by simp
    qed
    with len show ?thesis by simp
  qed
next
  case (3 s)
  then show ?case by simp
next
  case (4 n s)
  from "4.prems" obtain v r0 where pv: "parseValue n s = Parsed v r0"
    by (auto split: parsed.splits)
  from "4.IH"(1)[OF pv] have l0: "length r0 < length s" .
  from "4.prems" pv obtain c cs where sk: "skipWs r0 = c # cs"
    by (cases "skipWs r0") auto
  have l1: "length cs < length r0" by (rule skipWs_Cons_length[OF sk])
  show ?case
  proof (cases "c = 44")
    case True
    with "4.prems" pv sk obtain ws where "parseElements n cs = Parsed ws r'"
      by (auto split: parsed.splits)
    from "4.IH"(2)[OF pv sk True this] l0 l1 show ?thesis by simp
  next
    case False
    with "4.prems" pv sk have "r' = cs" by (auto split: if_splits)
    with l0 l1 show ?thesis by simp
  qed
next
  case (5 s)
  then show ?case by simp
next
  case (6 n s)
  from "6.prems" obtain q qs where sk: "skipWs s = q # qs"
    by (cases "skipWs s") auto
  from "6.prems" sk have q: "\<not> q \<noteq> 34" by (auto split: if_splits)
  from "6.prems" sk q obtain name r0 where pc: "parseChars [] qs = Some (name, r0)"
    by (auto split: option.splits)
  from "6.prems" sk q pc obtain k ks where sk2: "skipWs r0 = k # ks"
    by (cases "skipWs r0") auto
  from "6.prems" sk q pc sk2 have k: "\<not> k \<noteq> 58" by (auto split: if_splits)
  from "6.prems" sk q pc sk2 k obtain v r1 where pv: "parseValue n ks = Parsed v r1"
    by (auto split: parsed.splits)
  from "6.prems" sk q pc sk2 k pv obtain c cs where sk3: "skipWs r1 = c # cs"
    by (cases "skipWs r1") auto
  have l: "length qs < length s" "length r0 < length qs" "length ks < length r0"
    "length r1 < length ks" "length cs < length r1"
    using skipWs_Cons_length[OF sk] parseChars_consumes[OF pc] skipWs_Cons_length[OF sk2]
      "6.IH"(1)[OF sk q pc refl sk2 k pv] skipWs_Cons_length[OF sk3] pc by auto
  show ?case
  proof (cases "c = 44")
    case True
    with "6.prems" sk q pc sk2 k pv sk3 obtain ws where pm: "parseMembers n cs = Parsed ws r''"
      by (auto split: parsed.splits)
    from "6.IH"(2)[OF sk q pc refl sk2 k pv sk3 True pm] pc l show ?thesis by simp
  next
    case False
    with "6.prems" sk q pc sk2 k pv sk3 have "r'' = cs" by (auto split: if_splits)
    with l show ?thesis by simp
  qed
qed


lemma parse_fuel:
  "2 * length s + 1 \<le> n \<Longrightarrow> parseValue n s \<noteq> OutOfFuel"
  "2 * length s + 2 \<le> n \<Longrightarrow> parseElements n s \<noteq> OutOfFuel"
  "2 * length s + 2 \<le> n \<Longrightarrow> parseMembers n s \<noteq> OutOfFuel"
proof (induction n s and n s and n s rule: parseValue_parseElements_parseMembers.induct)
  case (1 s)
  then show ?case by simp
next
  case (2 n s)
  show ?case
  proof
    assume a: "parseValue (Suc n) s = OutOfFuel"
    then obtain c cs where sk: "skipWs s = c # cs"
      by (cases "skipWs s") auto
    have len: "length cs < length s" by (rule skipWs_Cons_length[OF sk])
    consider (arr) "c = 91" | (obj) "c \<noteq> 91" "c = 123" | (other) "c \<noteq> 91" "c \<noteq> 123"
      by blast
    then show False
    proof cases
      case arr
      from a sk arr obtain d ds where sk2: "skipWs cs = d # ds"
        by (cases "skipWs cs") auto
      from a sk arr sk2 have d: "d \<noteq> 93" by auto
      with a sk arr sk2 have "parseElements n cs = OutOfFuel"
        by (auto split: parsed.splits)
      moreover have "2 * length cs + 2 \<le> n" using "2.prems" len by linarith
      ultimately show False using "2.IH"(1)[OF sk arr sk2 d] by simp
    next
      case obj
      from a sk obj obtain d ds where sk2: "skipWs cs = d # ds"
        by (cases "skipWs cs") auto
      from a sk obj sk2 have d: "d \<noteq> 125" by auto
      with a sk obj sk2 have "parseMembers n cs = OutOfFuel"
        by (auto split: parsed.splits)
      moreover have "2 * length cs + 2 \<le> n" using "2.prems" len by linarith
      ultimately show False using "2.IH"(2)[OF sk obj(1) obj(2) sk2 d] by simp
    next
      case other
      with a sk show False
        by (auto split: if_splits option.splits)
    qed
  qed
next
  case (3 s)
  then show ?case by simp
next
  case (4 n s)
  show ?case
  proof
    assume a: "parseElements (Suc n) s = OutOfFuel"
    have "parseValue n s \<noteq> OutOfFuel" using "4.IH"(1) "4.prems" by simp
    with a obtain v r0 where pv: "parseValue n s = Parsed v r0"
      by (cases "parseValue n s") auto
    from a pv obtain c cs where sk: "skipWs r0 = c # cs"
      by (cases "skipWs r0") auto
    from a pv sk have c: "c = 44" by (auto split: if_splits)
    with a pv sk have "parseElements n cs = OutOfFuel"
      by (auto split: parsed.splits)
    moreover have "2 * length cs + 2 \<le> n"
      using "4.prems" parse_consumes(1)[OF pv] skipWs_Cons_length[OF sk] by linarith
    ultimately show False using "4.IH"(2)[OF pv sk c] by simp
  qed
next
  case (5 s)
  then show ?case by simp
next
  case (6 n s)
  show ?case
  proof
    assume a: "parseMembers (Suc n) s = OutOfFuel"
    then obtain q qs where sk: "skipWs s = q # qs"
      by (cases "skipWs s") auto
    from a sk have q: "\<not> q \<noteq> 34" by (auto split: if_splits)
    from a sk q obtain name r0 where pc: "parseChars [] qs = Some (name, r0)"
      by (auto split: option.splits)
    from a sk q pc obtain k ks where sk2: "skipWs r0 = k # ks"
      by (cases "skipWs r0") auto
    from a sk q pc sk2 have k: "\<not> k \<noteq> 58" by (auto split: if_splits)
    have l: "length qs < length s" "length r0 < length qs" "length ks < length r0"
      using skipWs_Cons_length[OF sk] parseChars_consumes[OF pc] skipWs_Cons_length[OF sk2]
      by auto
    have "parseValue n ks \<noteq> OutOfFuel"
      using "6.IH"(1)[OF sk q pc refl sk2 k] "6.prems" l by simp
    with a sk q pc sk2 k obtain v r1 where pv: "parseValue n ks = Parsed v r1"
      by (cases "parseValue n ks") auto
    from a sk q pc sk2 k pv obtain c cs where sk3: "skipWs r1 = c # cs"
      by (cases "skipWs r1") auto
    from a sk q pc sk2 k pv sk3 have c: "c = 44" by (auto split: if_splits)
    with a sk q pc sk2 k pv sk3 have "parseMembers n cs = OutOfFuel"
      by (auto split: parsed.splits)
    moreover have "2 * length cs + 2 \<le> n"
      using "6.prems" l parse_consumes(1)[OF pv] skipWs_Cons_length[OF sk3] by linarith
    ultimately show False using "6.IH"(2)[OF sk q pc refl sk2 k pv sk3 c] by simp
  qed
qed

lemma JSON_parse_fuel: "parseValue (2 * length s + 1) s \<noteq> OutOfFuel"
  by (rule parse_fuel(1)) simp

section \<open>Properties of the Text Extractor\<close>

lemma trim_Nil_iff: "trim s = [] \<longleftrightarrow> (\<forall>c \<in> set s. isWhiteSpace c)"
proof (cases "dropWhile isWhiteSpace s")
  case Nil
  then have "\<forall>c \<in> set s. isWhiteSpace c" by (simp add: dropWhile_eq_Nil_conv)
  then show ?thesis unfolding trim_def Nil by simp
next
  case (Cons x xs)
  then have x: "\<not> isWhiteSpace x" "x \<in> set s"
    using hd_dropWhile[of isWhiteSpace s] set_dropWhileD[of x isWhiteSpace s] by auto
  have "x \<in> set (rev (dropWhile isWhiteSpace s))" using Cons by simp
  with x(1) have "dropWhile isWhiteSpace (rev (dropWhile isWhiteSpace s)) \<noteq> []"
    unfolding dropWhile_eq_Nil_conv by blast
  then have "trim s \<noteq> []" by (simp add: trim_def)
  with x show ?thesis by auto
qed

lemma join_Cons: "ys \<noteq> [] \<Longrightarrow> join sep (x # ys) = x @ sep @ join sep ys"
  by (cases ys) auto

lemma join_append:
  "join sep (xs @ ys) =
     (if xs = [] then join sep ys
      else if ys = [] then join sep xs
      else join sep xs @ sep @ join sep ys)"
  by (induction sep xs rule: join.induct) (auto simp: join_Cons)

lemma join_concat_cong:
  assumes "\<And>b. b \<in> set bs \<Longrightarrow> join sep (f b) = join sep (g b) \<and> (f b = [] \<longleftrightarrow> g b = [])"
  shows "join sep (concat (map f bs)) = join sep (concat (map g bs))
         \<and> (concat (map f bs) = [] \<longleftrightarrow> concat (map g bs) = [])"
  using assms
proof (induction bs)
  case Nil
  then show ?case by simp
next
  case (Cons b bs)
  then have hd: "join sep (f b) = join sep (g b)" "f b = [] \<longleftrightarrow> g b = []"
    and tl: "join sep (concat (map f bs)) = join sep (concat (map g bs))"
            "concat (map f bs) = [] \<longleftrightarrow> concat (map g bs) = []"
    by simp_all
  show ?case
    using hd tl by (simp add: join_append del: concat_eq_Nil_conv)
qed

lemma set_join_nl: "set (join sep ls) \<supseteq> \<Union> (set ` set ls)"
  by (induction sep ls rule: join.induct) auto

lemma spec_lines_nonblank: "l \<in> set (spec_lines b) \<Longrightarrow> \<exists>c \<in> set l. \<not> isWhiteSpace c"
proof (induction b arbitrary: l rule: spec_lines.induct)
  case (1 ty cont ch)
  from "1.prems" consider
      (own) "l = spec_inlineText (Block ty cont ch)"
            "\<exists>c \<in> set (spec_inlineText (Block ty cont ch)). \<not> isWhiteSpace c"
    | (child) bs b where "ch = Some bs" "b \<in> set bs" "l \<in> set (spec_lines b)"
    by (auto split: if_splits option.splits simp del: spec_inlineText.simps)
  then show ?case
  proof cases
    case own
    then show ?thesis by simp
  next
    case child
    then show ?thesis using "1.IH"[of b l] by auto
  qed
qed

lemma trim_join_spec_lines:
  "trim (join sep (concat (map spec_lines bs))) \<noteq> [] \<longleftrightarrow> concat (map spec_lines bs) \<noteq> []"
proof
  assume "trim (join sep (concat (map spec_lines bs))) \<noteq> []"
  then show "concat (map spec_lines bs) \<noteq> []"
    by (cases "concat (map spec_lines bs)") (auto simp: trim_def)
next
  assume "concat (map spec_lines bs) \<noteq> []"
  then obtain l where l: "l \<in> set (concat (map spec_lines bs))"
    by (cases "concat (map spec_lines bs)") auto
  then obtain b where "b \<in> set bs" "l \<in> set (spec_lines b)" by auto
  then obtain c where c: "c \<in> set l" "\<not> isWhiteSpace c"
    using spec_lines_nonblank by blast
  have "c \<in> set (join sep (concat (map spec_lines bs)))"
    using set_join_nl[of "concat (map spec_lines bs)" sep] l c(1) by blast
  with c(2) show "trim (join sep (concat (map spec_lines bs))) \<noteq> []"
    by (auto simp: trim_Nil_iff)
qed

lemma join_append_joined:
  "join sep (xs @ (if L \<noteq> [] then [join sep L] else [])) = join sep (xs @ L)"
  "(xs @ (if L \<noteq> [] then [join sep L] else []) = []) \<longleftrightarrow> (xs @ L = [])"
  by (simp_all add: join_append)

lemma literals_concat: "concat (spec_literals i) = extractInlineText i"
proof (induction i rule: extractInlineText.induct)
  case (1 ty t0 cont)
  show ?case
  proof (cases "t0 \<noteq> None \<and> t0 \<noteq> Some []")
    case True
    then obtain c cs where "t0 = Some (c # cs)"
      by (cases t0) (auto simp: neq_Nil_conv)
    then show ?thesis by simp
  next
    case False
    then have t0: "t0 = None \<or> t0 = Some []" by blast
    show ?thesis
    proof (cases cont)
      case None
      with t0 show ?thesis by auto
    next
      case (Some items)
      have "concat (concat (map spec_literals items)) = concat (map extractInlineText items)"
        using "1.IH"[OF False Some] by (induction items) auto
      with t0 Some show ?thesis by auto
    qed
  qed
qed

lemma inlineText_items:
  "concat (concat (map spec_literals items)) = concat (map extractInlineText items)"
  by (induction items) (simp_all add: literals_concat)

lemma own_part:
  "(case cont of
      Some cs \<Rightarrow> (let lineText = concat (map extractInlineText cs)
                 in if trim lineText \<noteq> [] then [lineText] else [])
    | None \<Rightarrow> [])
   = (if \<exists>c \<in> set (spec_inlineText (Block ty cont ch)). \<not> isWhiteSpace c
      then [spec_inlineText (Block ty cont ch)] else [])"
  by (cases cont) (auto simp: trim_Nil_iff Let_def inlineText_items)

lemma extract_refines:
  "extractTextFromBlocks bs = join [10] (concat (map spec_lines bs))"
  "join [10] (pushBlock b) = join [10] (spec_lines b) \<and> (pushBlock b = [] \<longleftrightarrow> spec_lines b = [])"
proof (induction bs and b rule: extractTextFromBlocks_pushBlock.induct)
  case (1 blocks)
  show ?case
  proof (cases "blocks = []")
    case True
    then show ?thesis by simp
  next
    case False
    with 1 have "\<And>b. b \<in> set blocks \<Longrightarrow>
        join [10] (pushBlock b) = join [10] (spec_lines b) \<and> (pushBlock b = [] \<longleftrightarrow> spec_lines b = [])"
      by blast
    from join_concat_cong[of blocks "[10]" pushBlock spec_lines, OF this] False
    show ?thesis by simp
  qed
next
  case (2 ty cont ch)
  define own where "own = (if \<exists>c \<in> set (spec_inlineText (Block ty cont ch)). \<not> isWhiteSpace c
      then [spec_inlineText (Block ty cont ch)] else [])"
  define L where "L = concat (map spec_lines (case ch of Some bs \<Rightarrow> bs | None \<Rightarrow> []))"
  have spec: "spec_lines (Block ty cont ch) = own @ L"
    by (simp add: own_def L_def)
  have push: "pushBlock (Block ty cont ch) = own @ (if L \<noteq> [] then [join [10] L] else [])"
  proof (cases ch)
    case None
    then show ?thesis
      unfolding own_def L_def pushBlock.simps own_part[of cont ty ch] by simp
  next
    case (Some bs)
    with 2 have ih: "extractTextFromBlocks bs = join [10] L"
      by (simp add: L_def)
    have tr: "trim (extractTextFromBlocks bs) \<noteq> [] \<longleftrightarrow> L \<noteq> []"
      unfolding ih L_def Some by (simp only: option.case trim_join_spec_lines)
    have "pushBlock (Block ty cont ch) =
        own @ (if trim (extractTextFromBlocks bs) \<noteq> [] then [extractTextFromBlocks bs] else [])"
      unfolding own_def pushBlock.simps own_part[of cont ty ch] Some
      by (simp add: Let_def del: extractTextFromBlocks.simps)
    then show ?thesis
      using tr ih by (simp del: extractTextFromBlocks.simps)
  qed
  show ?case
    unfolding spec push by (rule conjI) (rule join_append_joined)+
qed

lemma no_text_lines: "no_text b \<Longrightarrow> spec_lines b = []"
  by (induction b rule: spec_lines.induct) (auto split: option.splits)

lemma extract_examples:
  "extractTextFromBlocks
     [paragraphBlock [textItem ''Hello''] None, paragraphBlock [textItem ''World''] None]
   = str ''Hello'' @ [10] @ str ''World''"
  "extractTextFromBlocks
     [paragraphBlock [textItem ''A''] (Some [paragraphBlock [textItem ''B''] None])]
   = str ''A'' @ [10] @ str ''B''"
  "extractTextFromBlocks [paragraphBlock [textItem ''   ''] None] = []"
  "extractTextFromBlocks
     [paragraphBlock [textItem ''See '', linkItem [textItem ''the '', textItem ''docs'']] (Some []),
      Block None None None]
   = str ''See the docs''"
  by (simp_all add: paragraphBlock_def textItem_def linkItem_def trim_def isWhiteSpace_def)

text \<open>
  Claim C3. For every finite sequence of blocks (the empty one, blocks without content
  or children, any nesting depth) the Text Extractor returns the string made of one line
  per block whose inline content carries non-whitespace text, each block's children's
  lines after its own line, recursively, joined by single line feeds; the line of a
  block is the literal texts of its inline items, nested ones included, one after the
  other. When no block anywhere carries non-whitespace text it returns the empty string.
  The extractor is a total function of its argument, so it returns without throwing and
  deterministically. Two paragraphs \<open>Hello\<close> and \<open>World\<close> give the two lines
  \<open>Hello\<close> and \<open>World\<close>; a paragraph \<open>A\<close> with the child \<open>B\<close> gives the
  lines \<open>A\<close> and \<open>B\<close>; a paragraph of three spaces gives the empty string; and a
  paragraph of the text \<open>See \<close> and a link around \<open>the \<close> and \<open>docs\<close>, with an
  empty sequence of children and before a block without content, gives the one line
  \<open>See the docs\<close>.
\<close>

theorem extractTextFromBlocks_spec:
  "extractTextFromBlocks blocks = spec_extract blocks
   \<and> ((\<forall>b \<in> set blocks. no_text b) \<longrightarrow> extractTextFromBlocks blocks = [])
   \<and> extractTextFromBlocks
        [paragraphBlock [textItem ''Hello''] None, paragraphBlock [textItem ''World''] None]
       = str ''Hello'' @ [10] @ str ''World''
   \<and> extractTextFromBlocks
        [paragraphBlock [textItem ''A''] (Some [paragraphBlock [textItem ''B''] None])]
       = str ''A'' @ [10] @ str ''B''
   \<and> extractTextFromBlocks [paragraphBlock [textItem ''   ''] None] = []
   \<and> extractTextFromBlocks
        [paragraphBlock [textItem ''See '', linkItem [textItem ''the '', textItem ''docs'']] (Some []),
         Block None None None]
       = str ''See the docs''"
proof -
  have "join [10] (concat (map spec_lines blocks)) = []" if "\<forall>b \<in> set blocks. no_text b"
  proof -
    from that have "concat (map spec_lines blocks) = []"
      by (simp add: no_text_lines)
    then show ?thesis by (simp only: join.simps)
  qed
  then have "extractTextFromBlocks blocks = spec_extract blocks
      \<and> ((\<forall>b \<in> set blocks. no_text b) \<longrightarrow> extractTextFromBlocks blocks = [])"
    unfolding extract_refines(1) spec_extract_def by blast
  with extract_examples show ?thesis by blast
qed

text \<open>
  The theorem at a paragraph of three spaces with one empty child, where nothing carries
  text, and at the paragraph with the link, where the specification's own description
  gives the line \<open>See the docs\<close>.
\<close>

theorem extractTextFromBlocks_spec_witness:
  "no_text (paragraphBlock [textItem ''   ''] (Some [Block None None None]))
   \<and> extractTextFromBlocks [paragraphBlock [textItem ''   ''] (Some [Block None None None])] = []
   \<and> spec_extract [paragraphBlock [textItem ''   ''] (Some [Block None None None])] = []
   \<and> spec_extract
        [paragraphBlock [textItem ''See '', linkItem [textItem ''the '', textItem ''docs'']] (Some []),
         Block None None None]
       = str ''See the docs''
   \<and> extractTextFromBlocks
        [paragraphBlock [textItem ''See '', linkItem [textItem ''the '', textItem ''docs'']] (Some []),
         Block None None None]
       = str ''See the docs''"
proof -
  let ?blank = "[paragraphBlock [textItem ''   ''] (Some [Block None None None])]"
  let ?link = "[paragraphBlock [textItem ''See '', linkItem [textItem ''the '', textItem ''docs'']] (Some []),
         Block None None None]"
  have n: "no_text (paragraphBlock [textItem ''   ''] (Some [Block None None None]))"
    by (simp add: paragraphBlock_def textItem_def isWhiteSpace_def)
  then have h: "\<forall>b \<in> set ?blank. no_text b" by simp
  from extractTextFromBlocks_spec[of ?blank] h
  have 1: "extractTextFromBlocks ?blank = []" and 2: "extractTextFromBlocks ?blank = spec_extract ?blank"
    by blast+
  have 3: "spec_extract ?link = str ''See the docs''"
    by (simp add: spec_extract_def paragraphBlock_def textItem_def linkItem_def isWhiteSpace_def)
  from extractTextFromBlocks_spec[of ?link]
  have 4: "extractTextFromBlocks ?link = spec_extract ?link" by blast
  from n 1 2 3 4 show ?thesis by simp
qed

section \<open>Properties of the tag reconciliation\<close>

subsection \<open>Strategy 1\<close>

lemma lazyStarClose_Some:
  "93 \<notin> set mid \<Longrightarrow> lazyStarClose acc (mid @ 93 # post) = Some (rev acc @ mid @ [93])"
  by (induction mid arbitrary: acc) auto

lemma lazyStarClose_None: "93 \<notin> set s \<Longrightarrow> lazyStarClose acc s = None"
  by (induction s arbitrary: acc) auto

lemma matchJsonArray_first_span:
  "91 \<notin> set pre \<Longrightarrow> 93 \<notin> set mid \<Longrightarrow>
   matchJsonArray (pre @ [91] @ mid @ [93] @ post) = Some ([91] @ mid @ [93])"
  by (induction pre) (auto simp: lazyStarClose_Some)

lemma matchJsonArray_None:
  "93 \<notin> set (dropWhile (\<lambda>c. c \<noteq> 91) raw) \<Longrightarrow> matchJsonArray raw = None"
proof (induction raw)
  case Nil
  then show ?case by simp
next
  case (Cons c cs)
  show ?case
  proof (cases "c = 91")
    case True
    with Cons.prems have n: "93 \<notin> set cs" by simp
    then have "93 \<notin> set (dropWhile (\<lambda>c. c \<noteq> 91) cs)"
      by (meson set_dropWhileD)
    with Cons.IH True n show ?thesis by (simp add: lazyStarClose_None)
  next
    case False
    with Cons show ?thesis by simp
  qed
qed

lemma jsonArrayTags_length: "length (jsonArrayTags raw) \<le> 5"
  by (simp add: jsonArrayTags_def split: option.splits json.splits)

lemma isTagString_trim: "isTagString t \<Longrightarrow> trim (stringOf t) \<noteq> []"
  by (cases t) auto

lemma jsonArrayTags_nonblank: "t \<in> set (jsonArrayTags raw) \<Longrightarrow> trim t \<noteq> []"
proof -
  assume t: "t \<in> set (jsonArrayTags raw)"
  then obtain m parsed where "t \<in> set (map stringOf (take 5 (filter isTagString parsed)))"
    by (auto simp: jsonArrayTags_def split: option.splits json.splits)
  then obtain j where "j \<in> set (take 5 (filter isTagString parsed))" "t = stringOf j"
    by auto
  then have "isTagString j" using set_take_subset[of 5 "filter isTagString parsed"] by auto
  with \<open>t = stringOf j\<close> show ?thesis by (simp add: isTagString_trim)
qed

lemma example_match:
  \<open>matchJsonArray (str ''Here are tags: ["react", "hooks", "nextjs"]'')
     = Some (str ''["react", "hooks", "nextjs"]'')\<close>
  by simp

lemma example_parse:
  \<open>JSON_parse (str ''["react", "hooks", "nextjs"]'')
     = Some (JArray [JString (str ''react''), JString (str ''hooks''), JString (str ''nextjs'')])\<close>
  by code_simp

lemma example_structured:
  \<open>jsonArrayTags (str ''Here are tags: ["react", "hooks", "nextjs"]'')
     = [str ''react'', str ''hooks'', str ''nextjs'']\<close>
  unfolding jsonArrayTags_def example_match option.case example_parse json.case
  by (simp add: trim_def isWhiteSpace_def)

lemma cex_parse1: \<open>JSON_parse (str ''[["a"]'') = None\<close> by code_simp
lemma cex_parse2: \<open>JSON_parse (str ''[["a"],"b"]'') = Some (JArray [JArray [JString (str ''a'')], JString (str ''b'')])\<close>
  by code_simp
lemma cex_parse3: \<open>JSON_parse (str ''[" ","a"]'') = Some (JArray [JString (str '' ''), JString (str ''a'')])\<close>
  by code_simp

text \<open>
  Claim C4, as the code has it. For every raw tags output, strategy 1 takes the text
  from the first opening bracket through the first closing bracket after it (the
  brackets are not balanced against each other), parses it as JSON and, when that gives
  an array, keeps in order the elements that are strings with a character left after
  trimming, at most 5 of them; without such a span it yields nothing. The raw output
  \<open>Here are tags: ["react", "hooks", "nextjs"]\<close> yields exactly
  \<open>["react", "hooks", "nextjs"]\<close>.
\<close>

theorem jsonArrayTags_first_bracket_span:
  \<open>(raw = pre @ [91] @ mid @ [93] @ post \<and> 91 \<notin> set pre \<and> 93 \<notin> set mid \<longrightarrow>
      jsonArrayTags raw =
        (case JSON_parse ([91] @ mid @ [93]) of
           Some (JArray parsed) \<Rightarrow> map stringOf (take 5 (filter isTagString parsed))
         | _ \<Rightarrow> []))
   \<and> (93 \<notin> set (dropWhile (\<lambda>c. c \<noteq> 91) raw) \<longrightarrow> jsonArrayTags raw = [])
   \<and> length (jsonArrayTags raw) \<le> 5
   \<and> (\<forall>t \<in> set (jsonArrayTags raw). trim t \<noteq> [])
   \<and> jsonArrayTags (str ''Here are tags: ["react", "hooks", "nextjs"]'')
       = [str ''react'', str ''hooks'', str ''nextjs'']\<close>
proof (intro conjI impI ballI)
  assume "raw = pre @ [91] @ mid @ [93] @ post \<and> 91 \<notin> set pre \<and> 93 \<notin> set mid"
  then have "matchJsonArray raw = Some ([91] @ mid @ [93])"
    using matchJsonArray_first_span[of pre mid post] by simp
  then show "jsonArrayTags raw =
        (case JSON_parse ([91] @ mid @ [93]) of
           Some (JArray parsed) \<Rightarrow> map stringOf (take 5 (filter isTagString parsed))
         | _ \<Rightarrow> [])"
    by (simp add: jsonArrayTags_def)
next
  assume "93 \<notin> set (dropWhile (\<lambda>c. c \<noteq> 91) raw)"
  then show "jsonArrayTags raw = []"
    by (simp add: jsonArrayTags_def matchJsonArray_None)
next
  show "length (jsonArrayTags raw) \<le> 5" by (rule jsonArrayTags_length)
next
  fix t assume "t \<in> set (jsonArrayTags raw)"
  then show "trim t \<noteq> []" by (rule jsonArrayTags_nonblank)
next
  show \<open>jsonArrayTags (str ''Here are tags: ["react", "hooks", "nextjs"]'')
       = [str ''react'', str ''hooks'', str ''nextjs'']\<close>
    by (rule example_structured)
qed

text \<open>
  The theorem at the example of the specification, whose span starts after
  \<open>Here are tags: \<close>, and at a reply without brackets.
\<close>

theorem jsonArrayTags_first_bracket_span_witness:
  \<open>jsonArrayTags (str ''Here are tags: ["react", "hooks", "nextjs"]'')
     = [str ''react'', str ''hooks'', str ''nextjs'']
   \<and> jsonArrayTags (str ''react, hooks'') = []
   \<and> str ''hooks'' \<in> set (jsonArrayTags (str ''Here are tags: ["react", "hooks", "nextjs"]''))
   \<and> trim (str ''hooks'') \<noteq> []\<close>
proof -
  have a: \<open>str ''Here are tags: ["react", "hooks", "nextjs"]''
      = str ''Here are tags: '' @ [91] @ str ''"react", "hooks", "nextjs"'' @ [93] @ []
      \<and> 91 \<notin> set (str ''Here are tags: '')
      \<and> 93 \<notin> set (str ''"react", "hooks", "nextjs"'')\<close>
    by simp
  have b: "93 \<notin> set (dropWhile (\<lambda>c. c \<noteq> 91) (str ''react, hooks''))"
    by simp
  have p: \<open>[91] @ str ''"react", "hooks", "nextjs"'' @ [93] = str ''["react", "hooks", "nextjs"]''\<close>
    by simp
  from jsonArrayTags_first_bracket_span
         [of \<open>str ''Here are tags: ["react", "hooks", "nextjs"]''\<close> \<open>str ''Here are tags: ''\<close>
             \<open>str ''"react", "hooks", "nextjs"''\<close> "[]"] a
  have 1: \<open>jsonArrayTags (str ''Here are tags: ["react", "hooks", "nextjs"]'') =
        (case JSON_parse ([91] @ str ''"react", "hooks", "nextjs"'' @ [93]) of
           Some (JArray parsed) \<Rightarrow> map stringOf (take 5 (filter isTagString parsed))
         | _ \<Rightarrow> [])\<close>
    by blast
  from jsonArrayTags_first_bracket_span[of "str ''react, hooks''" "[]" "[]" "[]"] b
  have 2: "jsonArrayTags (str ''react, hooks'') = []" by blast
  have 3: \<open>jsonArrayTags (str ''Here are tags: ["react", "hooks", "nextjs"]'')
      = [str ''react'', str ''hooks'', str ''nextjs'']\<close>
    unfolding 1 p example_parse by (simp add: trim_def isWhiteSpace_def)
  then have 4: \<open>str ''hooks'' \<in> set (jsonArrayTags (str ''Here are tags: ["react", "hooks", "nextjs"]''))\<close>
    by simp
  from jsonArrayTags_first_bracket_span
         [of \<open>str ''Here are tags: ["react", "hooks", "nextjs"]''\<close> "[]" "[]" "[]"] 4
  have 5: "trim (str ''hooks'') \<noteq> []" by blast
  from 2 3 4 5 show ?thesis by blast
qed

text \<open>
  Claim C4 as the specification words it fails twice. On \<open>[["a"],"b"]\<close> the first
  balanced list is the whole text, whose only string element is \<open>b\<close>; the code
  matches \<open>[["a"]\<close>, which is not JSON, and strategy 1 yields nothing. On
  \<open>[" ","a"]\<close> the one-space element is a non-empty string, and the code drops it.
\<close>

theorem jsonArrayTags_counterexample:
  \<open>jsonArrayTags (str ''[["a"],"b"]'') = []
   \<and> spec_structuredTags (str ''[["a"],"b"]'') = [str ''b'']
   \<and> jsonArrayTags (str ''[" ","a"]'') = [str ''a'']
   \<and> spec_structuredTags (str ''[" ","a"]'') = [str '' '', str ''a'']\<close>
proof -
  have m1: \<open>matchJsonArray (str ''[["a"],"b"]'') = Some (str ''[["a"]'')\<close> by simp
  have m2: \<open>spec_balancedList (str ''[["a"],"b"]'') = Some (str ''[["a"],"b"]'')\<close>
    by (simp add: spec_balancedList_def)
  have m3: \<open>matchJsonArray (str ''[" ","a"]'') = Some (str ''[" ","a"]'')\<close> by simp
  have m4: \<open>spec_balancedList (str ''[" ","a"]'') = Some (str ''[" ","a"]'')\<close>
    by (simp add: spec_balancedList_def)
  show ?thesis
    unfolding jsonArrayTags_def spec_structuredTags_def m1 m2 m3 m4 option.case
      cex_parse1 cex_parse2 cex_parse3 json.case
    by (simp add: trim_def isWhiteSpace_def)
qed

subsection \<open>Strategy 2\<close>

lemma findFence_span:
  "96 \<notin> set mid \<Longrightarrow> findFence (mid @ [96, 96, 96] @ post) = Some (length mid)"
  by (induction mid) auto

lemma removeFenced_span:
  "96 \<notin> set pre \<Longrightarrow> 96 \<notin> set mid \<Longrightarrow>
   removeFenced (pre @ [96, 96, 96] @ mid @ [96, 96, 96] @ post) = pre @ removeFenced post"
proof (induction pre)
  case Nil
  have f: "findFence (drop 2 (96 # 96 # mid @ [96, 96, 96] @ post)) = Some (length mid)"
    using findFence_span[OF Nil(2), of post] by simp
  have "drop (length mid + 3) (mid @ [96, 96, 96] @ post) = post"
    by (simp add: numeral_3_eq_3)
  moreover have "2 + length mid + 3 = Suc (Suc (length mid + 3))" by simp
  ultimately have d: "drop (2 + length mid + 3) (96 # 96 # mid @ [96, 96, 96] @ post) = post"
    by (simp only: drop_Suc_Cons)
  have "removeFenced ([96, 96, 96] @ mid @ [96, 96, 96] @ post) = removeFenced post"
    using f d by (simp del: drop_Suc_Cons)
  then show ?case by simp
next
  case (Cons c pre)
  then show ?case by auto
qed

lemma removeFenced_no_fence: "findFence s = None \<Longrightarrow> removeFenced s = s"
  by (induction s) (auto split: if_splits)

lemma findFence_drop: "findFence t = None \<Longrightarrow> findFence (drop k t) = None"
proof (induction t arbitrary: k)
  case Nil
  then show ?case by simp
next
  case (Cons c cs)
  then have "findFence cs = None" by (auto split: if_splits)
  with Cons show ?case by (cases k) auto
qed

lemma removeFenced_backquote:
  assumes "findFence t = None"
  shows "removeFenced (96 # t) = 96 # t"
    and "removeFenced (96 # 96 # t) = 96 # 96 # t"
    and "removeFenced (96 # 96 # 96 # t) = 96 # 96 # 96 # t"
proof -
  have t: "removeFenced t = t" by (rule removeFenced_no_fence[OF assms])
  have d: "findFence (drop k t) = None" for k by (rule findFence_drop[OF assms])
  show 1: "removeFenced (96 # t) = 96 # t"
    using t d[of 2] by simp
  show 2: "removeFenced (96 # 96 # t) = 96 # 96 # t"
    using 1 d[of 1] by simp
  show "removeFenced (96 # 96 # 96 # t) = 96 # 96 # 96 # t"
    using 2 d[of 0] by simp
qed

lemma removeFenced_unclosed:
  "96 \<notin> set pre \<Longrightarrow> findFence post = None \<Longrightarrow>
   removeFenced (pre @ [96, 96, 96] @ post) = pre @ [96, 96, 96] @ post"
proof (induction pre)
  case Nil
  have "removeFenced (96 # 96 # 96 # post) = 96 # 96 # 96 # post"
    by (rule removeFenced_backquote(3)[OF Nil(2)])
  then show ?case by (simp only: append_Nil append_Cons)
next
  case (Cons c pre)
  then have "c \<noteq> 96" and "removeFenced (pre @ [96, 96, 96] @ post) = pre @ [96, 96, 96] @ post"
    by auto
  then show ?case by simp
qed

lemma whiteSpace_not_marker: "isWhiteSpace c \<Longrightarrow> \<not> isListMarker c"
  by (auto simp: isWhiteSpace_def isListMarker_def)

lemma replaceMarkers_no_marker: "\<forall>c \<in> set s. \<not> isListMarker c \<Longrightarrow> replaceMarkers s = s"
  by (induction s) auto

lemma dropWhile_all_append:
  "\<forall>c \<in> set xs. P c \<Longrightarrow> dropWhile P (xs @ ys) = dropWhile P ys"
  by (induction xs) auto

lemma replaceMarkers_run:
  assumes "run \<noteq> []" "\<forall>c \<in> set run. isListMarker c" "\<forall>c \<in> set ws. isWhiteSpace c"
    and "rest = [] \<or> (\<not> isWhiteSpace (hd rest) \<and> (ws = [] \<longrightarrow> \<not> isListMarker (hd rest)))"
  shows "replaceMarkers (run @ ws @ rest) = 32 # replaceMarkers rest"
proof -
  from assms(1) obtain c run' where run: "run = c # run'" by (cases run) auto
  have 1: "dropWhile isListMarker (run' @ ws @ rest) = dropWhile isListMarker (ws @ rest)"
    using assms(2) run by (simp add: dropWhile_all_append)
  have 2: "dropWhile isListMarker (ws @ rest) = ws @ rest"
  proof (cases ws)
    case Nil
    with assms(4) show ?thesis by (cases rest) auto
  next
    case (Cons w ws')
    with assms(3) show ?thesis by (simp add: whiteSpace_not_marker)
  qed
  have 3: "dropWhile isWhiteSpace (ws @ rest) = rest"
    using assms(3,4) by (cases rest) (auto simp: dropWhile_all_append)
  show ?thesis using run assms(2) by (simp add: 1 2 3)
qed

lemma dropWhile_trimmed_end:
  assumes "dropWhile P xs = xs"
  shows "dropWhile P (rev (dropWhile P (rev xs))) = rev (dropWhile P (rev xs))"
proof (cases "rev (dropWhile P (rev xs))")
  case Nil
  show ?thesis unfolding Nil by simp
next
  case (Cons b bs)
  have "rev xs = takeWhile P (rev xs) @ dropWhile P (rev xs)" by simp
  then have "xs = rev (dropWhile P (rev xs)) @ rev (takeWhile P (rev xs))"
    by (metis rev_append rev_rev_ident)
  with Cons have xs: "xs = b # bs @ rev (takeWhile P (rev xs))" by simp
  then have "hd xs = b" by (metis list.sel(1))
  moreover have "xs \<noteq> []" using xs by auto
  ultimately have "\<not> P b" using assms hd_dropWhile[of P xs] by auto
  with Cons show ?thesis by simp
qed

lemma trim_idem: "trim (trim s) = trim s"
proof -
  let ?A = "dropWhile isWhiteSpace s"
  have A: "dropWhile isWhiteSpace ?A = ?A" by (rule dropWhile_idem)
  have "dropWhile isWhiteSpace (trim s) = trim s"
    unfolding trim_def by (rule dropWhile_trimmed_end[OF A])
  then show ?thesis
    unfolding trim_def by (simp add: dropWhile_idem)
qed

lemma set_trim: "set (trim s) \<subseteq> set s"
proof
  fix x assume "x \<in> set (trim s)"
  then have "x \<in> set (dropWhile isWhiteSpace (rev (dropWhile isWhiteSpace s)))"
    by (simp add: trim_def)
  then have "x \<in> set (rev (dropWhile isWhiteSpace s))" by (rule set_dropWhileD)
  then have "x \<in> set (dropWhile isWhiteSpace s)" by simp
  then show "x \<in> set s" by (rule set_dropWhileD)
qed

lemma splitPieces_chars:
  "p \<in> set (splitPieces cur s) \<Longrightarrow> c \<in> set p \<Longrightarrow>
   \<forall>x \<in> set cur. \<not> isSeparator x \<Longrightarrow> c \<in> set cur \<union> set s \<and> \<not> isSeparator c"
proof (induction cur s arbitrary: p rule: splitPieces.induct)
  case (1 cur)
  then show ?case by auto
next
  case (2 cur c' cs)
  show ?case
  proof (cases "isSeparator c'")
    case True
    with "2.prems"(1) consider "p = rev cur" | "p \<in> set (splitPieces [] (dropWhile isSeparator cs))"
      by auto
    then show ?thesis
    proof cases
      case 1
      with "2.prems" show ?thesis by auto
    next
      case 2
      from "2.IH"(1)[OF True 2 "2.prems"(2)] have "c \<in> set (dropWhile isSeparator cs)" "\<not> isSeparator c"
        by auto
      then show ?thesis using set_dropWhileD by fastforce
    qed
  next
    case False
    with "2.prems"(1) have "p \<in> set (splitPieces (c' # cur) cs)" by simp
    from "2.IH"(2)[OF False this "2.prems"(2)] False "2.prems"(3) show ?thesis by auto
  qed
qed

lemma splitTags_props:
  assumes "t \<in> set (splitTags lower raw)"
  shows "1 < length t \<and> length t < 30
         \<and> (\<exists>p. t = lower p \<and> trim p = p
                \<and> (\<forall>c \<in> set p. c \<noteq> 44 \<and> c \<noteq> 10 \<and> c \<noteq> 91 \<and> c \<noteq> 93 \<and> c \<noteq> 34 \<and> c \<noteq> 39))"
proof -
  let ?s = "replaceMarkers (removeFenced raw)"
  let ?cands = "map (\<lambda>t. lower (trim t)) (splitPieces [] (removeQuotesBrackets ?s))"
  from assms have "t \<in> set (filter (\<lambda>t. length t > 1 \<and> length t < 30) ?cands)"
    unfolding splitTags_def by (meson in_set_takeD)
  then have len: "1 < length t \<and> length t < 30" and "t \<in> set ?cands" by auto
  then obtain p where p: "p \<in> set (splitPieces [] (removeQuotesBrackets ?s))"
    and t: "t = lower (trim p)" by auto
  have "c \<noteq> 44 \<and> c \<noteq> 10 \<and> c \<noteq> 91 \<and> c \<noteq> 93 \<and> c \<noteq> 34 \<and> c \<noteq> 39" if "c \<in> set (trim p)" for c
  proof -
    from that have "c \<in> set p" using set_trim by blast
    from splitPieces_chars[OF p this] have "c \<in> set (removeQuotesBrackets ?s)" "\<not> isSeparator c"
      by auto
    then show ?thesis
      by (auto simp: removeQuotesBrackets_def isQuoteOrBracket_def isSeparator_def)
  qed
  with len t trim_idem[of p] show ?thesis by blast
qed

lemma findFence_None_iff: "findFence s = None \<longleftrightarrow> (\<forall>a b. s \<noteq> a @ [96, 96, 96] @ b)"
proof (induction s)
  case Nil
  then show ?case by simp
next
  case (Cons c cs)
  show ?case
  proof
    assume n: "findFence (c # cs) = None"
    then have t: "take 3 (c # cs) \<noteq> [96, 96, 96]" and "findFence cs = None"
      by (auto split: if_splits)
    with Cons.IH have ih: "\<forall>a b. cs \<noteq> a @ [96, 96, 96] @ b" by simp
    show "\<forall>a b. c # cs \<noteq> a @ [96, 96, 96] @ b"
    proof (intro allI notI)
      fix a b assume e: "c # cs = a @ [96, 96, 96] @ b"
      show False
      proof (cases a)
        case Nil
        with e have "take 3 (c # cs) = [96, 96, 96]" by simp
        with t show False by simp
      next
        case (Cons x a')
        with e have "cs = a' @ [96, 96, 96] @ b" by simp
        with ih show False by blast
      qed
    qed
  next
    assume a: "\<forall>a b. c # cs \<noteq> a @ [96, 96, 96] @ b"
    have t: "take 3 (c # cs) \<noteq> [96, 96, 96]"
    proof
      assume "take 3 (c # cs) = [96, 96, 96]"
      then have "c # cs = [] @ [96, 96, 96] @ drop 3 (c # cs)"
        by (metis append_Nil append_take_drop_id)
      with a show False by blast
    qed
    have "\<forall>a b. cs \<noteq> a @ [96, 96, 96] @ b"
    proof (intro allI notI)
      fix a' b assume "cs = a' @ [96, 96, 96] @ b"
      then have "c # cs = (c # a') @ [96, 96, 96] @ b" by simp
      with a show False by blast
    qed
    with Cons.IH have "findFence cs = None" by simp
    with t show "findFence (c # cs) = None" by simp
  qed
qed

lemma isListMarker_chars: "isListMarker c \<longleftrightarrow> c \<in> set (str ''*-.0123456789'')"
  by (auto simp: isListMarker_def; arith)

lemma removeQuotesBrackets_filter:
  "removeQuotesBrackets s = filter (\<lambda>c. c \<noteq> 91 \<and> c \<noteq> 93 \<and> c \<noteq> 34 \<and> c \<noteq> 39) s"
  by (simp add: removeQuotesBrackets_def isQuoteOrBracket_def)

lemma splitPieces_no_separator:
  "\<forall>c \<in> set p. \<not> isSeparator c \<Longrightarrow> splitPieces cur p = [rev cur @ p]"
  by (induction p arbitrary: cur) auto

lemma splitPieces_run:
  assumes "\<forall>c \<in> set p. \<not> isSeparator c" "sep \<noteq> []" "\<forall>c \<in> set sep. isSeparator c"
    and "q = [] \<or> \<not> isSeparator (hd q)"
  shows "splitPieces cur (p @ sep @ q) = (rev cur @ p) # splitPieces [] q"
  using assms(1)
proof (induction p arbitrary: cur)
  case Nil
  from assms(2) obtain c sep' where sep: "sep = c # sep'" by (cases sep) auto
  have "dropWhile isSeparator (sep' @ q) = dropWhile isSeparator q"
    using assms(3) sep by (simp add: dropWhile_all_append)
  also have "\<dots> = q" using assms(4) by (cases q) auto
  finally show ?case using sep assms(3) by simp
next
  case (Cons x p)
  then show ?case by simp
qed

lemma trim_core:
  assumes "\<forall>c \<in> set l. isWhiteSpace c" "\<forall>c \<in> set r. isWhiteSpace c"
    and "t = [] \<or> (\<not> isWhiteSpace (hd t) \<and> \<not> isWhiteSpace (last t))"
  shows "trim (l @ t @ r) = t"
proof (cases "t = []")
  case True
  with assms(1,2) have "\<forall>c \<in> set (l @ t @ r). isWhiteSpace c" by auto
  then have "trim (l @ t @ r) = []" by (simp only: trim_Nil_iff)
  with True show ?thesis by simp
next
  case False
  with assms(3) have h: "\<not> isWhiteSpace (hd t)" and e: "\<not> isWhiteSpace (last t)" by auto
  have 1: "dropWhile isWhiteSpace (l @ t @ r) = t @ r"
    using assms(1) False h by (cases t) (auto simp: dropWhile_all_append)
  have hl: "hd (rev t) = last t" using False by (simp add: hd_rev)
  obtain x xs where rt: "rev t = x # xs" using False by (cases "rev t") auto
  with hl e have "\<not> isWhiteSpace x" by simp
  then have 2: "dropWhile isWhiteSpace (rev t) = rev t" unfolding rt by simp
  have 3: "dropWhile isWhiteSpace (rev r @ rev t) = rev t"
    using assms(2) 2 by (simp add: dropWhile_all_append)
  show ?thesis
    unfolding trim_def 1 by (simp add: 3)
qed

lemma numbered_example_split:
  assumes "lower (str ''React'') = str ''react''" "lower (str ''Hooks'') = str ''hooks''"
    and "lower (str ''Next js'') = str ''next js''"
  shows "splitTags lower (str ''1. React'' @ [10] @ str ''2. Hooks'' @ [10] @ str ''3. Next.js'')
     = [str ''react'', str ''hooks'', str ''next js'']"
proof -
  let ?raw = "str ''1. React'' @ [10] @ str ''2. Hooks'' @ [10] @ str ''3. Next.js''"
  have e1: "removeFenced ?raw = ?raw" by simp
  have e2: "replaceMarkers ?raw = str '' React'' @ [10] @ str '' Hooks'' @ [10] @ str '' Next js''"
    by (simp add: isListMarker_def isWhiteSpace_def)
  have e3: "removeQuotesBrackets (str '' React'' @ [10] @ str '' Hooks'' @ [10] @ str '' Next js'')
      = str '' React'' @ [10] @ str '' Hooks'' @ [10] @ str '' Next js''"
    by (simp add: removeQuotesBrackets_def isQuoteOrBracket_def)
  have e4: "splitPieces [] (str '' React'' @ [10] @ str '' Hooks'' @ [10] @ str '' Next js'')
      = [str '' React'', str '' Hooks'', str '' Next js'']"
    by (simp add: isSeparator_def)
  have e5: "map trim [str '' React'', str '' Hooks'', str '' Next js'']
      = [str ''React'', str ''Hooks'', str ''Next js'']"
    by (simp add: trim_def isWhiteSpace_def)
  have "map (\<lambda>t. lower (trim t)) [str '' React'', str '' Hooks'', str '' Next js'']
      = map lower (map trim [str '' React'', str '' Hooks'', str '' Next js''])"
    by (simp only: map_map comp_def)
  also have "\<dots> = [str ''react'', str ''hooks'', str ''next js'']"
    unfolding e5 using assms by simp
  finally have e6: "map (\<lambda>t. lower (trim t)) [str '' React'', str '' Hooks'', str '' Next js'']
      = [str ''react'', str ''hooks'', str ''next js'']" .
  show ?thesis
    unfolding splitTags_def e1 e2 e3 e4 e6 by simp
qed

lemma numbered_example_no_array:
  "jsonArrayTags (str ''1. React'' @ [10] @ str ''2. Hooks'' @ [10] @ str ''3. Next.js'') = []"
  by (simp add: jsonArrayTags_def)

text \<open>
  Claim C5, as the code has it. For every raw tags output and every case conversion
  of the engine, strategy 2 is the following chain, and it is the result of the
  reconciliation when strategy 1 yields nothing.
  \<^item> Every fenced span goes: three backquotes, the text up to the next three
    backquotes, and these. Three backquotes without a closing fence stay, and a text
    without three backquotes in a row is unchanged.
  \<^item> Every run of asterisks, hyphens, digits and full stops, with the white space
    after it, becomes one space; a text without these characters is unchanged.
  \<^item> Brackets, double quotes and single quotes go, and nothing else.
  \<^item> The text is split at every run of commas and line feeds: a text without them
    is one piece, and the text before the first run is the first piece.
  \<^item> Each piece is trimmed of the white space at its two ends and lowercased.
  \<^item> The pieces whose length is strictly between 1 and 30 are kept, and of these
    the first 5.

  Where the engine lowercases \<open>React\<close>, \<open>Hooks\<close> and \<open>Next js\<close> to \<open>react\<close>,
  \<open>hooks\<close> and \<open>next js\<close>, the raw output \<open>1. React\<close>, \<open>2. Hooks\<close>,
  \<open>3. Next.js\<close> on three lines yields these three tags, of length 2 to 29.
\<close>

theorem splitTags_heuristic:
  "splitTags lower raw =
     take 5 (filter (\<lambda>t. 1 < length t \<and> length t < 30)
       (map (\<lambda>p. lower (trim p))
          (splitPieces [] (removeQuotesBrackets (replaceMarkers (removeFenced raw))))))
   \<and> (96 \<notin> set pre \<and> 96 \<notin> set mid \<longrightarrow>
        removeFenced (pre @ [96, 96, 96] @ mid @ [96, 96, 96] @ post) = pre @ removeFenced post)
   \<and> (96 \<notin> set pre \<and> findFence post = None \<longrightarrow>
        removeFenced (pre @ [96, 96, 96] @ post) = pre @ [96, 96, 96] @ post)
   \<and> (findFence s = None \<longrightarrow> removeFenced s = s)
   \<and> (findFence s = None \<longleftrightarrow> (\<forall>a b. s \<noteq> a @ [96, 96, 96] @ b))
   \<and> (run \<noteq> [] \<and> (\<forall>c \<in> set run. isListMarker c) \<and> (\<forall>c \<in> set ws. isWhiteSpace c)
        \<and> (rest = [] \<or> (\<not> isWhiteSpace (hd rest) \<and> (ws = [] \<longrightarrow> \<not> isListMarker (hd rest))))
        \<longrightarrow> replaceMarkers (run @ ws @ rest) = 32 # replaceMarkers rest)
   \<and> ((\<forall>c \<in> set s. \<not> isListMarker c) \<longrightarrow> replaceMarkers s = s)
   \<and> (isListMarker u \<longleftrightarrow> u \<in> set (str ''*-.0123456789''))
   \<and> removeQuotesBrackets s = filter (\<lambda>c. c \<noteq> 91 \<and> c \<noteq> 93 \<and> c \<noteq> 34 \<and> c \<noteq> 39) s
   \<and> ((\<forall>c \<in> set p. c \<noteq> 44 \<and> c \<noteq> 10) \<longrightarrow> splitPieces [] p = [p])
   \<and> ((\<forall>c \<in> set p. c \<noteq> 44 \<and> c \<noteq> 10) \<and> sep \<noteq> [] \<and> (\<forall>c \<in> set sep. c = 44 \<or> c = 10)
        \<and> (q = [] \<or> (hd q \<noteq> 44 \<and> hd q \<noteq> 10))
        \<longrightarrow> splitPieces [] (p @ sep @ q) = p # splitPieces [] q)
   \<and> ((\<forall>c \<in> set l. isWhiteSpace c) \<and> (\<forall>c \<in> set r. isWhiteSpace c)
        \<and> (t = [] \<or> (\<not> isWhiteSpace (hd t) \<and> \<not> isWhiteSpace (last t)))
        \<longrightarrow> trim (l @ t @ r) = t)
   \<and> (jsonArrayTags raw = [] \<longrightarrow> reconcileTags lower raw = splitTags lower raw)
   \<and> length (splitTags lower raw) \<le> 5
   \<and> (\<forall>t \<in> set (splitTags lower raw).
         1 < length t \<and> length t < 30
         \<and> (\<exists>p. t = lower p \<and> trim p = p
                \<and> (\<forall>c \<in> set p. c \<noteq> 44 \<and> c \<noteq> 10 \<and> c \<noteq> 91 \<and> c \<noteq> 93 \<and> c \<noteq> 34 \<and> c \<noteq> 39)))
   \<and> (lower (str ''React'') = str ''react'' \<and> lower (str ''Hooks'') = str ''hooks''
        \<and> lower (str ''Next js'') = str ''next js''
        \<longrightarrow> reconcileTags lower (str ''1. React'' @ [10] @ str ''2. Hooks'' @ [10] @ str ''3. Next.js'')
             = [str ''react'', str ''hooks'', str ''next js''])"
proof (intro conjI impI)
  show "splitTags lower raw =
     take 5 (filter (\<lambda>t. 1 < length t \<and> length t < 30)
       (map (\<lambda>p. lower (trim p))
          (splitPieces [] (removeQuotesBrackets (replaceMarkers (removeFenced raw))))))"
    by (simp add: splitTags_def)
next
  assume "96 \<notin> set pre \<and> 96 \<notin> set mid"
  then show "removeFenced (pre @ [96, 96, 96] @ mid @ [96, 96, 96] @ post) = pre @ removeFenced post"
    using removeFenced_span by blast
next
  assume "96 \<notin> set pre \<and> findFence post = None"
  then show "removeFenced (pre @ [96, 96, 96] @ post) = pre @ [96, 96, 96] @ post"
    using removeFenced_unclosed by blast
next
  assume "findFence s = None"
  then show "removeFenced s = s" by (rule removeFenced_no_fence)
next
  show "findFence s = None \<longleftrightarrow> (\<forall>a b. s \<noteq> a @ [96, 96, 96] @ b)"
    by (rule findFence_None_iff)
next
  assume "run \<noteq> [] \<and> (\<forall>c \<in> set run. isListMarker c) \<and> (\<forall>c \<in> set ws. isWhiteSpace c)
        \<and> (rest = [] \<or> (\<not> isWhiteSpace (hd rest) \<and> (ws = [] \<longrightarrow> \<not> isListMarker (hd rest))))"
  then show "replaceMarkers (run @ ws @ rest) = 32 # replaceMarkers rest"
    using replaceMarkers_run by blast
next
  assume "\<forall>c \<in> set s. \<not> isListMarker c"
  then show "replaceMarkers s = s" by (rule replaceMarkers_no_marker)
next
  show "isListMarker u \<longleftrightarrow> u \<in> set (str ''*-.0123456789'')"
    by (rule isListMarker_chars)
next
  show "removeQuotesBrackets s = filter (\<lambda>c. c \<noteq> 91 \<and> c \<noteq> 93 \<and> c \<noteq> 34 \<and> c \<noteq> 39) s"
    by (rule removeQuotesBrackets_filter)
next
  assume "\<forall>c \<in> set p. c \<noteq> 44 \<and> c \<noteq> 10"
  then have "\<forall>c \<in> set p. \<not> isSeparator c" by (simp add: isSeparator_def)
  from splitPieces_no_separator[OF this, of "[]"] show "splitPieces [] p = [p]" by simp
next
  assume a: "(\<forall>c \<in> set p. c \<noteq> 44 \<and> c \<noteq> 10) \<and> sep \<noteq> [] \<and> (\<forall>c \<in> set sep. c = 44 \<or> c = 10)
        \<and> (q = [] \<or> (hd q \<noteq> 44 \<and> hd q \<noteq> 10))"
  then have "\<forall>c \<in> set p. \<not> isSeparator c" "sep \<noteq> []" "\<forall>c \<in> set sep. isSeparator c"
    "q = [] \<or> \<not> isSeparator (hd q)"
    by (auto simp: isSeparator_def)
  from splitPieces_run[OF this, of "[]"] show "splitPieces [] (p @ sep @ q) = p # splitPieces [] q"
    by simp
next
  assume "(\<forall>c \<in> set l. isWhiteSpace c) \<and> (\<forall>c \<in> set r. isWhiteSpace c)
        \<and> (t = [] \<or> (\<not> isWhiteSpace (hd t) \<and> \<not> isWhiteSpace (last t)))"
  then show "trim (l @ t @ r) = t" using trim_core by blast
next
  assume "jsonArrayTags raw = []"
  then show "reconcileTags lower raw = splitTags lower raw" by (simp add: reconcileTags_def)
next
  show "length (splitTags lower raw) \<le> 5" by (simp add: splitTags_def)
next
  show "\<forall>t \<in> set (splitTags lower raw).
         1 < length t \<and> length t < 30
         \<and> (\<exists>p. t = lower p \<and> trim p = p
                \<and> (\<forall>c \<in> set p. c \<noteq> 44 \<and> c \<noteq> 10 \<and> c \<noteq> 91 \<and> c \<noteq> 93 \<and> c \<noteq> 34 \<and> c \<noteq> 39))"
    using splitTags_props by blast
next
  assume "lower (str ''React'') = str ''react'' \<and> lower (str ''Hooks'') = str ''hooks''
        \<and> lower (str ''Next js'') = str ''next js''"
  then have "splitTags lower (str ''1. React'' @ [10] @ str ''2. Hooks'' @ [10] @ str ''3. Next.js'')
      = [str ''react'', str ''hooks'', str ''next js'']"
    using numbered_example_split by blast
  then show "reconcileTags lower (str ''1. React'' @ [10] @ str ''2. Hooks'' @ [10] @ str ''3. Next.js'')
       = [str ''react'', str ''hooks'', str ''next js'']"
    unfolding reconcileTags_def numbered_example_no_array by simp
qed

text \<open>
  The theorem at the numbered list of the specification with the ASCII conversion, at
  \<open>b\<close> between two fences, at the marker \<open>1.\<close> with the space after it, at
  \<open>react, hooks\<close> split at its comma, and at \<open>React\<close> after a space.
\<close>

theorem splitTags_heuristic_witness:
  "reconcileTags lowerASCII (str ''1. React'' @ [10] @ str ''2. Hooks'' @ [10] @ str ''3. Next.js'')
     = [str ''react'', str ''hooks'', str ''next js'']
   \<and> splitTags lowerASCII (str ''1. React'' @ [10] @ str ''2. Hooks'' @ [10] @ str ''3. Next.js'')
     = [str ''react'', str ''hooks'', str ''next js'']
   \<and> removeFenced (str ''a'' @ [96, 96, 96] @ str ''b'' @ [96, 96, 96] @ str ''c'') = str ''ac''
   \<and> removeFenced (str ''a'' @ [96, 96, 96] @ str ''c'') = str ''a'' @ [96, 96, 96] @ str ''c''
   \<and> removeFenced (str ''abc'') = str ''abc''
   \<and> replaceMarkers (str ''1.'' @ str '' '' @ str ''React'') = str '' React''
   \<and> replaceMarkers (str ''abc'') = str ''abc''
   \<and> splitPieces [] (str ''react'' @ str '','' @ str '' hooks'') = [str ''react'', str '' hooks'']
   \<and> trim (str '' '' @ str ''React'' @ []) = str ''React''
   \<and> str ''next js'' \<in> set (splitTags lowerASCII
         (str ''1. React'' @ [10] @ str ''2. Hooks'' @ [10] @ str ''3. Next.js''))
   \<and> 1 < length (str ''next js'') \<and> length (str ''next js'') < 30"
proof -
  let ?raw = "str ''1. React'' @ [10] @ str ''2. Hooks'' @ [10] @ str ''3. Next.js''"
  note th = splitTags_heuristic[where lower = lowerASCII and raw = ?raw and pre = "str ''a''"
      and mid = "str ''b''" and post = "str ''c''" and s = "str ''abc''" and run = "str ''1.''"
      and ws = "str '' ''" and rest = "str ''React''" and p = "str ''react''" and sep = "str '',''"
      and q = "str '' hooks''" and l = "str '' ''" and t = "str ''React''" and r = "[]"]
  note th2 = splitTags_heuristic[where lower = lowerASCII and raw = ?raw and p = "str '' hooks''"]
  note fenced = th[THEN conjunct2, THEN conjunct1]
  note unclosed = th[THEN conjunct2, THEN conjunct2, THEN conjunct1]
  note noFence = th[THEN conjunct2, THEN conjunct2, THEN conjunct2, THEN conjunct1]
  note markerRun = th[THEN conjunct2, THEN conjunct2, THEN conjunct2, THEN conjunct2, THEN conjunct2, THEN conjunct1]
  note noMarker = th[THEN conjunct2, THEN conjunct2, THEN conjunct2, THEN conjunct2, THEN conjunct2, THEN conjunct2, THEN conjunct1]
  note onePiece = th[THEN conjunct2, THEN conjunct2, THEN conjunct2, THEN conjunct2, THEN conjunct2, THEN conjunct2, THEN conjunct2, THEN conjunct2, THEN conjunct2, THEN conjunct1]
  note pieceRun = th[THEN conjunct2, THEN conjunct2, THEN conjunct2, THEN conjunct2, THEN conjunct2, THEN conjunct2, THEN conjunct2, THEN conjunct2, THEN conjunct2, THEN conjunct2, THEN conjunct1]
  note trimmed = th[THEN conjunct2, THEN conjunct2, THEN conjunct2, THEN conjunct2, THEN conjunct2, THEN conjunct2, THEN conjunct2, THEN conjunct2, THEN conjunct2, THEN conjunct2, THEN conjunct2, THEN conjunct1]
  note fallback = th[THEN conjunct2, THEN conjunct2, THEN conjunct2, THEN conjunct2, THEN conjunct2, THEN conjunct2, THEN conjunct2, THEN conjunct2, THEN conjunct2, THEN conjunct2, THEN conjunct2, THEN conjunct2, THEN conjunct1]
  note eachTag = th[THEN conjunct2, THEN conjunct2, THEN conjunct2, THEN conjunct2, THEN conjunct2, THEN conjunct2, THEN conjunct2, THEN conjunct2, THEN conjunct2, THEN conjunct2, THEN conjunct2, THEN conjunct2, THEN conjunct2, THEN conjunct2, THEN conjunct1]
  note example = th[THEN conjunct2, THEN conjunct2, THEN conjunct2, THEN conjunct2, THEN conjunct2, THEN conjunct2, THEN conjunct2, THEN conjunct2, THEN conjunct2, THEN conjunct2, THEN conjunct2, THEN conjunct2, THEN conjunct2, THEN conjunct2, THEN conjunct2]
  have h1: "96 \<notin> set (str ''a'') \<and> 96 \<notin> set (str ''b'')" by simp
  have h1': "96 \<notin> set (str ''a'') \<and> findFence (str ''c'') = None" by simp
  have h2: "findFence (str ''abc'') = None" by simp
  have h3: "str ''1.'' \<noteq> [] \<and> (\<forall>c \<in> set (str ''1.''). isListMarker c)
      \<and> (\<forall>c \<in> set (str '' ''). isWhiteSpace c)
      \<and> (str ''React'' = [] \<or> (\<not> isWhiteSpace (hd (str ''React''))
            \<and> (str '' '' = [] \<longrightarrow> \<not> isListMarker (hd (str ''React'')))))"
    by (simp add: isListMarker_def isWhiteSpace_def)
  have h4: "\<forall>c \<in> set (str ''abc''). \<not> isListMarker c"
    by (simp add: isListMarker_def)
  have h5: "jsonArrayTags ?raw = []" by (rule numbered_example_no_array)
  have h6: "(\<forall>c \<in> set (str ''react''). c \<noteq> 44 \<and> c \<noteq> 10) \<and> str '','' \<noteq> []
      \<and> (\<forall>c \<in> set (str '',''). c = 44 \<or> c = 10)
      \<and> (str '' hooks'' = [] \<or> (hd (str '' hooks'') \<noteq> 44 \<and> hd (str '' hooks'') \<noteq> 10))"
    by simp
  have h7: "\<forall>c \<in> set (str '' hooks''). c \<noteq> 44 \<and> c \<noteq> 10" by simp
  have h8: "(\<forall>c \<in> set (str '' ''). isWhiteSpace c) \<and> (\<forall>c \<in> set []. isWhiteSpace c)
      \<and> (str ''React'' = [] \<or> (\<not> isWhiteSpace (hd (str ''React''))
            \<and> \<not> isWhiteSpace (last (str ''React''))))"
    by (simp add: isWhiteSpace_def)
  have h9: "lowerASCII (str ''React'') = str ''react'' \<and> lowerASCII (str ''Hooks'') = str ''hooks''
      \<and> lowerASCII (str ''Next js'') = str ''next js''"
    by (simp add: lowerASCII_def)
  have c1: "removeFenced (str ''a'' @ [96, 96, 96] @ str ''b'' @ [96, 96, 96] @ str ''c'')
      = str ''a'' @ removeFenced (str ''c'')" by (rule mp[OF fenced h1])
  have c1': "removeFenced (str ''a'' @ [96, 96, 96] @ str ''c'')
      = str ''a'' @ [96, 96, 96] @ str ''c''" by (rule mp[OF unclosed h1'])
  have c2: "removeFenced (str ''abc'') = str ''abc''" by (rule mp[OF noFence h2])
  have c3: "replaceMarkers (str ''1.'' @ str '' '' @ str ''React'')
      = 32 # replaceMarkers (str ''React'')" by (rule mp[OF markerRun h3])
  have c4: "replaceMarkers (str ''abc'') = str ''abc''" by (rule mp[OF noMarker h4])
  have c5: "reconcileTags lowerASCII ?raw = splitTags lowerASCII ?raw" by (rule mp[OF fallback h5])
  have c6: "reconcileTags lowerASCII ?raw = [str ''react'', str ''hooks'', str ''next js'']"
    by (rule mp[OF example h9])
  have c7: "splitPieces [] (str ''react'' @ str '','' @ str '' hooks'')
      = str ''react'' # splitPieces [] (str '' hooks'')" by (rule mp[OF pieceRun h6])
  have c7': "splitPieces [] (str '' hooks'') = [str '' hooks'']" by (rule mp[OF th2[THEN conjunct2, THEN conjunct2, THEN conjunct2, THEN conjunct2, THEN conjunct2, THEN conjunct2, THEN conjunct2, THEN conjunct2, THEN conjunct2, THEN conjunct1] h7])
  have c8: "trim (str '' '' @ str ''React'' @ []) = str ''React''" by (rule mp[OF trimmed h8])
  have c9: "replaceMarkers (str ''React'') = str ''React''"
    by (simp add: isListMarker_def)
  from c5 c6 have c10: "splitTags lowerASCII ?raw = [str ''react'', str ''hooks'', str ''next js'']"
    by simp
  then have c11: "str ''next js'' \<in> set (splitTags lowerASCII ?raw)" by simp
  from bspec[OF eachTag c11]
  have c12: "1 < length (str ''next js'') \<and> length (str ''next js'') < 30" by simp
  have c13: "removeFenced (str ''a'' @ [96, 96, 96] @ str ''b'' @ [96, 96, 96] @ str ''c'') = str ''ac''"
    using c1 by simp
  have c14: "replaceMarkers (str ''1.'' @ str '' '' @ str ''React'') = str '' React''"
    using c3 c9 by simp
  have c15: "splitPieces [] (str ''react'' @ str '','' @ str '' hooks'')
      = [str ''react'', str '' hooks'']"
    using c7 c7' by simp
  show ?thesis
    by (intro conjI) (rule c6 c10 c13 c1' c2 c14 c4 c15 c8 c11 c12[THEN conjunct1] c12[THEN conjunct2])+
qed

text \<open>
  Claim C5 as the specification words it fails on a reply that lists the tags between
  two code fences without brackets: stripping the fence markers leaves \<open>react\<close> and
  \<open>hooks\<close>, while the code removes the fenced text with the fences and finds no tag.
\<close>

theorem splitTags_counterexample:
  "jsonArrayTags ([96, 96, 96] @ [10] @ str ''react, hooks'' @ [10] @ [96, 96, 96]) = []
   \<and> splitTags lowerASCII ([96, 96, 96] @ [10] @ str ''react, hooks'' @ [10] @ [96, 96, 96]) = []
   \<and> spec_heuristicTags lowerASCII ([96, 96, 96] @ [10] @ str ''react, hooks'' @ [10] @ [96, 96, 96])
       = [str ''react'', str ''hooks'']"
proof -
  let ?raw = "[96, 96, 96] @ [10] @ str ''react, hooks'' @ [10] @ [96, 96, 96]"
  have a: "jsonArrayTags ?raw = []" by (simp add: jsonArrayTags_def)
  have r: "removeFenced ?raw = []"
    using removeFenced_span[of "[]" "[10] @ str ''react, hooks'' @ [10]" "[]"] by simp
  have b: "splitTags lowerASCII ?raw = []"
    unfolding splitTags_def r
    by (simp add: removeQuotesBrackets_def trim_def lowerASCII_def)
  have s1: "spec_stripFenceMarkers ?raw = [10] @ str ''react, hooks'' @ [10]" by simp
  have s2: "filter (\<lambda>c. \<not> isQuoteOrBracket c) (filter (\<lambda>c. \<not> isListMarker c)
              ([10] @ str ''react, hooks'' @ [10])) = [10] @ str ''react, hooks'' @ [10]"
    by (simp add: isQuoteOrBracket_def isListMarker_def)
  have s3: "splitPieces [] ([10] @ str ''react, hooks'' @ [10])
      = [[], str ''react'', str '' hooks'', []]"
    by (simp add: isSeparator_def)
  have c: "spec_heuristicTags lowerASCII ?raw = [str ''react'', str ''hooks'']"
    unfolding spec_heuristicTags_def s1 s2 s3
    by (simp add: trim_def isWhiteSpace_def lowerASCII_def)
  from a b c show ?thesis by blast
qed

section \<open>Properties of the routes\<close>

lemma cast_alicePageId: "castHex24 alicePageId = Inr 16"
  by (simp add: castHex24_def alicePageId_def hexVal_def)

lemma aiBody_fields:
  "property (aiBody c) ''pageId'' = Some (JString alicePageId)"
  "property (aiBody c) ''content'' = Some (JString c)"
  "property (aiBody c) ''title'' = None"
  "property (aiBody c) ''selection'' = None"
  "aiBody c \<noteq> JNull"
  by (simp_all add: aiBody_def property_def memberOf_def)

lemma alicePageId_nonempty: "alicePageId \<noteq> []"
  by (simp add: alicePageId_def)

text \<open>
  Claim C2, as the code has it. For every authenticated \<open>POST /ai/summarize\<close> whose
  body is a JSON value other than \<open>null\<close> and whose content, trimmed of the white
  space at its two ends, has fewer than 20 code units, the response is a 400 and the
  world is as it was: no request went to the provider and no page changed.
\<close>

theorem summarize_rejects_short_content:
  assumes "b \<noteq> JNull"
    and "length (trim (stringOr (property b ''content'') [])) < 20"
  shows "status (fst (app e \<lparr>session = Some uid, route = Summarize, body = Decoded b,
                              generatedId = g\<rparr> w)) = 400
         \<and> snd (app e \<lparr>session = Some uid, route = Summarize, body = Decoded b,
                        generatedId = g\<rparr> w) = w"
  using assms by (simp add: app_def postSummarize_def Let_def failure_def)

text \<open>The theorem at the content \<open>short\<close>.\<close>

theorem summarize_rejects_short_content_witness:
  "status (fst (app (replying (str ''A summary.'')) (requestOf bob Summarize (aiBody (str ''short'')))
                  aliceWorld)) = 400
   \<and> snd (app (replying (str ''A summary.'')) (requestOf bob Summarize (aiBody (str ''short'')))
            aliceWorld) = aliceWorld"
proof -
  have 1: "aiBody (str ''short'') \<noteq> JNull" by (rule aiBody_fields)
  have 2: "length (trim (stringOr (property (aiBody (str ''short'')) ''content'') [])) < 20"
    by (simp add: aiBody_fields stringOr_def trim_def isWhiteSpace_def)
  from summarize_rejects_short_content[OF 1 2, of "replying (str ''A summary.'')" bob 17 aliceWorld]
  show ?thesis by (simp add: requestOf_def)
qed

text \<open>
  Claim C2 as the specification words it fails: \<open>a b c d e f g h i j k\<close> has 11
  non-whitespace characters, fewer than 20, and 21 code units after trimming; the
  request is accepted, the provider is called once and the response is a 200.
\<close>

theorem summarize_counterexample:
  "nonWhitespaceCount (str ''a b c d e f g h i j k'') = 11
   \<and> status (fst (app (replying (str ''A summary.''))
                    (requestOf alice Summarize (aiBody (str ''a b c d e f g h i j k''))) aliceWorld)) = 200
   \<and> length (aiCalls (snd (app (replying (str ''A summary.''))
                    (requestOf alice Summarize (aiBody (str ''a b c d e f g h i j k''))) aliceWorld))) = 1"
proof -
  have n: "nonWhitespaceCount (str ''a b c d e f g h i j k'') = 11"
    by (simp add: nonWhitespaceCount_def isWhiteSpace_def)
  show ?thesis
    unfolding n
    by (simp add: app_def requestOf_def postSummarize_def aiBody_fields stringOr_def
          alicePageId_nonempty replying_def cast_alicePageId Let_def success_def aliceWorld_def
          replyText_def trim_def isWhiteSpace_def)
qed





text \<open>
  Claim C8. After every \<open>POST /ai/improve\<close> and every \<open>POST /ai/generate\<close>,
  successful or not, the collection is what it was: no field of any page has changed.
  A successful one returns the trimmed reply to the caller, and all it adds to the world
  is the call of the provider.
\<close>

theorem improve_and_generate_persist_nothing:
  "pages (snd (app e (rq\<lparr>route := Improve\<rparr>) w)) = pages w
   \<and> pages (snd (app e (rq\<lparr>route := Generate\<rparr>) w)) = pages w
   \<and> (session rq = Some uid \<and> body rq = Decoded b \<and> b \<noteq> JNull
        \<and> 5 \<le> length (trim (textToImprove b))
        \<and> provider e (improveRequest b) = Replied (Some t) \<and> trim t \<noteq> []
       \<longrightarrow> app e (rq\<lparr>route := Improve\<rparr>) w
            = (success 200 (ResultText (trim t)), w\<lparr>aiCalls := aiCalls w @ [improveRequest b]\<rparr>))
   \<and> (session rq = Some uid \<and> body rq = Decoded b \<and> b \<noteq> JNull
        \<and> trim (stringOr (property b ''prompt'') []) \<noteq> []
        \<and> provider e (generateRequest b) = Replied (Some t) \<and> trim t \<noteq> []
       \<longrightarrow> app e (rq\<lparr>route := Generate\<rparr>) w
            = (success 200 (ResultText (trim t)), w\<lparr>aiCalls := aiCalls w @ [generateRequest b]\<rparr>))"
proof (intro conjI impI)
  show "pages (snd (app e (rq\<lparr>route := Improve\<rparr>) w)) = pages w"
    by (simp add: app_def postImprove_def Let_def
          split: option.splits requestBody.splits completion.splits)
  show "pages (snd (app e (rq\<lparr>route := Generate\<rparr>) w)) = pages w"
    by (simp add: app_def postGenerate_def Let_def
          split: option.splits requestBody.splits completion.splits)
next
  assume "session rq = Some uid \<and> body rq = Decoded b \<and> b \<noteq> JNull
        \<and> 5 \<le> length (trim (textToImprove b))
        \<and> provider e (improveRequest b) = Replied (Some t) \<and> trim t \<noteq> []"
  then show "app e (rq\<lparr>route := Improve\<rparr>) w
            = (success 200 (ResultText (trim t)), w\<lparr>aiCalls := aiCalls w @ [improveRequest b]\<rparr>)"
    by (simp add: app_def postImprove_def Let_def replyText_def)
next
  assume "session rq = Some uid \<and> body rq = Decoded b \<and> b \<noteq> JNull
        \<and> trim (stringOr (property b ''prompt'') []) \<noteq> []
        \<and> provider e (generateRequest b) = Replied (Some t) \<and> trim t \<noteq> []"
  then show "app e (rq\<lparr>route := Generate\<rparr>) w
            = (success 200 (ResultText (trim t)), w\<lparr>aiCalls := aiCalls w @ [generateRequest b]\<rparr>)"
    by (simp add: app_def postGenerate_def Let_def replyText_def)
qed

text \<open>
  The theorem at a successful improve request, a generate request without a prompt, and
  a successful generate request.
\<close>

theorem improve_and_generate_persist_nothing_witness:
  "app (replying (str ''Better text.'')) (requestOf alice Improve (aiBody (str ''Some text''))) aliceWorld
     = (success 200 (ResultText (str ''Better text.'')),
        aliceWorld\<lparr>aiCalls := [improveRequest (aiBody (str ''Some text''))]\<rparr>)
   \<and> pages (snd (app (replying (str ''Better text.''))
        (requestOf alice Improve (aiBody (str ''Some text''))) aliceWorld)) = pages aliceWorld
   \<and> pages (snd (app (replying (str ''Better text.''))
        (requestOf alice Generate (aiBody (str ''Some text''))) aliceWorld)) = pages aliceWorld
   \<and> app (replying (str ''Better text.'')) (requestOf alice Generate generateBody) aliceWorld
     = (success 200 (ResultText (str ''Better text.'')),
        aliceWorld\<lparr>aiCalls := [generateRequest generateBody]\<rparr>)"
proof -
  let ?b = "aiBody (str ''Some text'')"
  let ?rq = "requestOf alice Improve ?b"
  have h: "session ?rq = Some alice \<and> body ?rq = Decoded ?b \<and> ?b \<noteq> JNull
      \<and> 5 \<le> length (trim (textToImprove ?b))
      \<and> provider (replying (str ''Better text.'')) (improveRequest ?b)
          = Replied (Some (str ''Better text.''))
      \<and> trim (str ''Better text.'') \<noteq> []"
    by (simp add: requestOf_def aiBody_fields textToImprove_def selectionOf_def
          selectionOrContent_def stringOr_def trim_def isWhiteSpace_def replying_def)
  have t: "trim (str ''Better text.'') = str ''Better text.''"
    by (simp add: trim_def isWhiteSpace_def)
  have r: "?rq\<lparr>route := Improve\<rparr> = ?rq" "?rq\<lparr>route := Generate\<rparr> = requestOf alice Generate ?b"
    by (simp_all add: requestOf_def)
  note th = improve_and_generate_persist_nothing
      [of "replying (str ''Better text.'')" ?rq aliceWorld alice ?b "str ''Better text.''"]
  from th h have 1: "app (replying (str ''Better text.'')) (?rq\<lparr>route := Improve\<rparr>) aliceWorld
      = (success 200 (ResultText (trim (str ''Better text.''))),
         aliceWorld\<lparr>aiCalls := aiCalls aliceWorld @ [improveRequest ?b]\<rparr>)"
    by blast
  from th have 2: "pages (snd (app (replying (str ''Better text.'')) (?rq\<lparr>route := Improve\<rparr>) aliceWorld))
      = pages aliceWorld" by blast
  from th have 3: "pages (snd (app (replying (str ''Better text.'')) (?rq\<lparr>route := Generate\<rparr>) aliceWorld))
      = pages aliceWorld" by blast
  have a: "aiCalls aliceWorld = []" by (simp add: aliceWorld_def)
  let ?rg = "requestOf alice Generate generateBody"
  have hg: "session ?rg = Some alice \<and> body ?rg = Decoded generateBody \<and> generateBody \<noteq> JNull
      \<and> trim (stringOr (property generateBody ''prompt'') []) \<noteq> []
      \<and> provider (replying (str ''Better text.'')) (generateRequest generateBody)
          = Replied (Some (str ''Better text.''))
      \<and> trim (str ''Better text.'') \<noteq> []"
    by (simp add: requestOf_def generateBody_def property_def memberOf_def stringOr_def
          trim_def isWhiteSpace_def replying_def)
  have rg: "?rg\<lparr>route := Generate\<rparr> = ?rg" by (simp add: requestOf_def)
  from improve_and_generate_persist_nothing
      [of "replying (str ''Better text.'')" ?rg aliceWorld alice generateBody "str ''Better text.''"] hg
  have 4: "app (replying (str ''Better text.'')) (?rg\<lparr>route := Generate\<rparr>) aliceWorld
      = (success 200 (ResultText (trim (str ''Better text.''))),
         aliceWorld\<lparr>aiCalls := aiCalls aliceWorld @ [generateRequest generateBody]\<rparr>)"
    by blast
  show ?thesis
    using 1 2 3 4 unfolding r rg t a by simp
qed

text \<open>
  Claim C10. In \<open>POST /ai/improve\<close>, when the body's \<open>selection\<close> is absent, not a
  string or the empty string, the text to improve is the full content; when it is a
  non-empty string it is the selection, white space or not. That text is the one whose
  trimmed length is checked against 5, and the one the user message sent to the provider
  ends with.
\<close>

theorem improve_text_is_selection_or_content:
  "((\<forall>s. property b ''selection'' = Some (JString s) \<longrightarrow> s = [])
      \<longrightarrow> textToImprove b = stringOr (property b ''content'') [])
   \<and> (property b ''selection'' = Some (JString sel) \<and> sel \<noteq> [] \<longrightarrow> textToImprove b = sel)
   \<and> (b \<noteq> JNull \<and> length (trim (textToImprove b)) < 5
        \<longrightarrow> app e \<lparr>session = Some uid, route = Improve, body = Decoded b, generatedId = g\<rparr> w
             = (failure 400 ''Please provide more text to improve.'', w))
   \<and> (b \<noteq> JNull \<and> 5 \<le> length (trim (textToImprove b))
        \<longrightarrow> aiCalls (snd (app e \<lparr>session = Some uid, route = Improve, body = Decoded b,
                                   generatedId = g\<rparr> w)) = aiCalls w @ [improveRequest b])
   \<and> map msgContent (messages (improveRequest b))
       = [improveSystem, str ''Please improve this text:'' @ [10, 10] @ textToImprove b]"
proof (intro conjI impI)
  assume "\<forall>s. property b ''selection'' = Some (JString s) \<longrightarrow> s = []"
  then show "textToImprove b = stringOr (property b ''content'') []"
    by (auto simp: textToImprove_def selectionOf_def selectionOrContent_def
          split: option.splits json.splits)
next
  assume "property b ''selection'' = Some (JString sel) \<and> sel \<noteq> []"
  then show "textToImprove b = sel"
    by (simp add: textToImprove_def selectionOf_def selectionOrContent_def)
next
  assume "b \<noteq> JNull \<and> length (trim (textToImprove b)) < 5"
  then show "app e \<lparr>session = Some uid, route = Improve, body = Decoded b, generatedId = g\<rparr> w
             = (failure 400 ''Please provide more text to improve.'', w)"
    by (simp add: app_def postImprove_def)
next
  assume "b \<noteq> JNull \<and> 5 \<le> length (trim (textToImprove b))"
  then show "aiCalls (snd (app e \<lparr>session = Some uid, route = Improve, body = Decoded b,
                                   generatedId = g\<rparr> w)) = aiCalls w @ [improveRequest b]"
    by (simp add: app_def postImprove_def Let_def split: completion.splits)
next
  show "map msgContent (messages (improveRequest b))
       = [improveSystem, str ''Please improve this text:'' @ [10, 10] @ textToImprove b]"
    by (simp add: improveRequest_def getImprovePrompt_def textToImprove_def Let_def)
qed

lemma improveBody_fields:
  "property (improveBody v) ''content'' = Some (JString (str ''The whole note.''))"
  "property (improveBody v) ''selection'' = Some v"
  "improveBody v \<noteq> JNull"
  by (simp_all add: improveBody_def property_def memberOf_def)

text \<open>
  The theorem at a selection that is a number, one that is empty, and one of three
  spaces, which is used and rejected although the content is long enough.
\<close>

theorem improve_text_is_selection_or_content_witness:
  "textToImprove (improveBody (JNumber (str ''7''))) = str ''The whole note.''
   \<and> textToImprove (improveBody (JString [])) = str ''The whole note.''
   \<and> textToImprove (improveBody (JString (str ''   ''))) = str ''   ''
   \<and> app (replying (str ''Better.'')) (requestOf alice Improve (improveBody (JString (str ''   ''))))
        aliceWorld = (failure 400 ''Please provide more text to improve.'', aliceWorld)
   \<and> aiCalls (snd (app (replying (str ''Better.''))
        (requestOf alice Improve (improveBody (JString []))) aliceWorld))
       = [improveRequest (improveBody (JString []))]"
proof -
  let ?e = "replying (str ''Better.'')"
  note th1 = improve_text_is_selection_or_content
      [of "improveBody (JNumber (str ''7''))" "[]" ?e alice 17 aliceWorld]
  note th2 = improve_text_is_selection_or_content
      [of "improveBody (JString [])" "[]" ?e alice 17 aliceWorld]
  note th3 = improve_text_is_selection_or_content
      [of "improveBody (JString (str ''   ''))" "str ''   ''" ?e alice 17 aliceWorld]
  have h1: "\<forall>s. property (improveBody (JNumber (str ''7''))) ''selection'' = Some (JString s) \<longrightarrow> s = []"
    by (simp add: improveBody_fields)
  have h2: "\<forall>s. property (improveBody (JString [])) ''selection'' = Some (JString s) \<longrightarrow> s = []"
    by (simp add: improveBody_fields)
  have h3: "property (improveBody (JString (str ''   ''))) ''selection'' = Some (JString (str ''   ''))
      \<and> str ''   '' \<noteq> []"
    by (simp add: improveBody_fields)
  from th1 h1 have c1: "textToImprove (improveBody (JNumber (str ''7'')))
      = stringOr (property (improveBody (JNumber (str ''7''))) ''content'') []" by blast
  from th2 h2 have c2: "textToImprove (improveBody (JString []))
      = stringOr (property (improveBody (JString [])) ''content'') []" by blast
  from th3 h3 have c3: "textToImprove (improveBody (JString (str ''   ''))) = str ''   ''" by blast
  have h4: "improveBody (JString (str ''   '')) \<noteq> JNull
      \<and> length (trim (textToImprove (improveBody (JString (str ''   ''))))) < 5"
    unfolding c3 by (simp add: improveBody_fields trim_def isWhiteSpace_def)
  from th3 h4 have c4: "app ?e \<lparr>session = Some alice, route = Improve,
        body = Decoded (improveBody (JString (str ''   ''))), generatedId = 17\<rparr> aliceWorld
      = (failure 400 ''Please provide more text to improve.'', aliceWorld)" by blast
  have h5: "improveBody (JString []) \<noteq> JNull
      \<and> 5 \<le> length (trim (textToImprove (improveBody (JString []))))"
    unfolding c2 by (simp add: improveBody_fields stringOr_def trim_def isWhiteSpace_def)
  from th2 h5 have c5: "aiCalls (snd (app ?e \<lparr>session = Some alice, route = Improve,
        body = Decoded (improveBody (JString [])), generatedId = 17\<rparr> aliceWorld))
      = aiCalls aliceWorld @ [improveRequest (improveBody (JString []))]" by blast
  have a: "aiCalls aliceWorld = []" by (simp add: aliceWorld_def)
  show ?thesis
    using c1 c2 c3 c4 c5 a by (simp add: requestOf_def improveBody_fields stringOr_def)
qed

lemma setField_flags:
  "isFavorite (setField kv p) = isFavorite p" "isArchived (setField kv p) = isArchived p"
  "userId (setField kv p) = userId p"
  by (simp_all add: setField_def)

lemma setFields_flags:
  "isFavorite (setFields kvs p) = isFavorite p \<and> isArchived (setFields kvs p) = isArchived p
   \<and> userId (setFields kvs p) = userId p"
  unfolding setFields_def by (induction kvs arbitrary: p) (simp_all add: setField_flags)

lemma allExclusive_upd:
  "allExclusive coll \<Longrightarrow> flagsExclusive p \<Longrightarrow> allExclusive (coll(oid \<mapsto> p))"
  by (simp add: allExclusive_def)

lemma allExclusive_del: "allExclusive coll \<Longrightarrow> allExclusive (coll(oid := None))"
  by (simp add: allExclusive_def)

lemma allExclusive_findByIdAndUpdate:
  assumes "allExclusive coll"
    and "\<And>p. isFavorite (f p) = isFavorite p \<and> isArchived (f p) = isArchived p"
  shows "allExclusive (findByIdAndUpdate oid f coll)"
proof (cases "coll oid")
  case None
  with assms(1) show ?thesis by (simp add: findByIdAndUpdate_def)
next
  case (Some p)
  with assms(1) have "flagsExclusive p" by (auto simp: allExclusive_def)
  then have "flagsExclusive (f p)" using assms(2)[of p] by (simp add: flagsExclusive_def)
  with assms(1) Some show ?thesis by (simp add: findByIdAndUpdate_def allExclusive_upd)
qed

lemma findOne_Some: "findOne oid uid coll = Some p \<Longrightarrow> coll oid = Some p \<and> userId p = uid"
  by (auto simp: findOne_def split: option.splits if_splits)

lemma exclusive_postPage: "allExclusive (pages w) \<Longrightarrow> allExclusive (pages (snd (postPage e uid n rb w)))"
  by (auto simp: postPage_def Let_def flagsExclusive_def intro!: allExclusive_upd
        split: option.splits requestBody.splits)

lemma exclusive_getPage: "allExclusive (pages w) \<Longrightarrow> allExclusive (pages (snd (getPage e uid pid w)))"
  by (auto simp: getPage_def split: option.splits sum.splits)

lemma exclusive_patchPage:
  "allExclusive (pages w) \<Longrightarrow> allExclusive (pages (snd (patchPage e uid pid rb w)))"
proof -
  assume a: "allExclusive (pages w)"
  have "flagsExclusive (setFields kvs p)" if "findOne oid uid (pages w) = Some p" for oid p kvs
  proof -
    from findOne_Some[OF that] a have "flagsExclusive p" by (auto simp: allExclusive_def)
    then show ?thesis by (simp add: flagsExclusive_def setFields_flags)
  qed
  with a show ?thesis
    by (auto simp: patchPage_def intro!: allExclusive_upd
          split: option.splits requestBody.splits sum.splits)
qed

lemma exclusive_patchArchive:
  "allExclusive (pages w) \<Longrightarrow> allExclusive (pages (snd (patchArchive e uid pid w)))"
  by (auto simp: patchArchive_def Let_def flagsExclusive_def intro!: allExclusive_upd
        split: option.splits sum.splits)

lemma exclusive_deletePage:
  "allExclusive (pages w) \<Longrightarrow> allExclusive (pages (snd (deletePage e uid pid w)))"
  by (auto simp: deletePage_def intro!: allExclusive_del split: option.splits sum.splits)

lemma exclusive_postSummarize:
  "allExclusive (pages w) \<Longrightarrow> allExclusive (pages (snd (postSummarize e rb w)))"
  by (auto simp: postSummarize_def Let_def intro!: allExclusive_findByIdAndUpdate
        split: option.splits requestBody.splits completion.splits sum.splits)

lemma exclusive_postTags:
  "allExclusive (pages w) \<Longrightarrow> allExclusive (pages (snd (postTags e rb w)))"
  by (auto simp: postTags_def Let_def intro!: allExclusive_findByIdAndUpdate
        split: option.splits requestBody.splits completion.splits sum.splits)

lemma pages_postImprove: "pages (snd (postImprove e rb w)) = pages w"
  by (simp add: postImprove_def Let_def split: requestBody.splits completion.splits)

lemma pages_postGenerate: "pages (snd (postGenerate e rb w)) = pages w"
  by (simp add: postGenerate_def Let_def split: requestBody.splits completion.splits)

lemma flags_commute:
  "p\<lparr>isFavorite := a, isArchived := b\<rparr> = p\<lparr>isArchived := b, isFavorite := a\<rparr>"
  by (cases p) simp

lemma exclusive_patchFavorite:
  assumes "allExclusive (pages w)"
    and "\<And>oid p. castObjectId e pid = Inr oid \<Longrightarrow> pages w oid = Some p \<Longrightarrow> \<not> isArchived p"
  shows "allExclusive (pages (snd (patchFavorite e uid pid w)))"
proof -
  have "flagsExclusive (p\<lparr>isFavorite := \<not> isFavorite p\<rparr>)"
    if "castObjectId e pid = Inr oid" "findOne oid uid (pages w) = Some p" for oid p
    using assms(2)[OF that(1)] findOne_Some[OF that(2)] by (simp add: flagsExclusive_def)
  with assms(1) show ?thesis
    by (auto simp: patchFavorite_def Let_def intro!: allExclusive_upd
          split: option.splits sum.splits)
qed

text \<open>
  Every route keeps archived and favorite from being both true on any page, the
  favorite toggle too when the page it toggles is not archived.
\<close>

lemma routes_keep_flags_exclusive:
  assumes "allExclusive (pages w)"
    and "\<And>pid oid p. route rq = ToggleFavorite pid \<Longrightarrow> castObjectId e pid = Inr oid \<Longrightarrow>
           pages w oid = Some p \<Longrightarrow> \<not> isArchived p"
  shows "allExclusive (pages (snd (app e rq w)))"
proof (cases "session rq")
  case None
  with assms(1) show ?thesis by (simp add: app_def)
next
  case (Some u)
  show ?thesis
  proof (cases "route rq")
    case (ToggleFavorite pid)
    with Some assms show ?thesis
      by (simp add: app_def exclusive_patchFavorite)
  qed (use Some assms(1) in \<open>simp_all add: app_def exclusive_postPage exclusive_getPage
         exclusive_patchPage exclusive_patchArchive exclusive_deletePage exclusive_postSummarize
         exclusive_postTags pages_postImprove pages_postGenerate\<close>)
qed

text \<open>
  The archive toggle on a favorite page that is not archived stores it archived and not
  favorite, and answers with \<open>isArchived\<close> alone; toggled again, the page is not
  archived and still not favorite.
\<close>

lemma archive_toggle_clears_favorite:
  assumes "connectDB e = None" "castObjectId e pid = Inr oid" "pages w oid = Some p"
    and "userId p = uid" "isFavorite p" "\<not> isArchived p"
  shows "app e \<lparr>session = Some uid, route = ToggleArchive pid, body = rb, generatedId = g\<rparr> w
            = (success 200 (ArchivedData True),
               w\<lparr>pages := (pages w)(oid \<mapsto> p\<lparr>isArchived := True, isFavorite := False\<rparr>)\<rparr>)"
    and "app e \<lparr>session = Some uid, route = ToggleArchive pid, body = rb, generatedId = g\<rparr>
              (w\<lparr>pages := (pages w)(oid \<mapsto> p\<lparr>isArchived := True, isFavorite := False\<rparr>)\<rparr>)
            = (success 200 (ArchivedData False),
               w\<lparr>pages := (pages w)(oid \<mapsto> p\<lparr>isArchived := False, isFavorite := False\<rparr>)\<rparr>)"
  using assms by (simp_all add: app_def patchArchive_def findOne_def Let_def flags_commute)

text \<open>
  The favorite toggle on an archived page that is not a favorite, whoever owns it and
  whatever else the collection holds: the page is stored archived and favorite.
\<close>

lemma archived_page_becomes_favorite:
  assumes "connectDB e = None" "castObjectId e pid = Inr oid" "pages w oid = Some p"
    and "userId p = uid" "isArchived p" "\<not> isFavorite p"
  shows "app e \<lparr>session = Some uid, route = ToggleFavorite pid, body = rb, generatedId = g\<rparr> w
            = (success 200 (FavoriteData True),
               w\<lparr>pages := (pages w)(oid \<mapsto> p\<lparr>isFavorite := True\<rparr>)\<rparr>)"
    and "\<not> allExclusive (pages (snd (app e \<lparr>session = Some uid, route = ToggleFavorite pid,
                                              body = rb, generatedId = g\<rparr> w)))"
proof -
  show 1: "app e \<lparr>session = Some uid, route = ToggleFavorite pid, body = rb, generatedId = g\<rparr> w
            = (success 200 (FavoriteData True),
               w\<lparr>pages := (pages w)(oid \<mapsto> p\<lparr>isFavorite := True\<rparr>)\<rparr>)"
    using assms by (simp add: app_def patchFavorite_def findOne_def Let_def)
  have "\<not> flagsExclusive (p\<lparr>isFavorite := True\<rparr>)"
    using assms(5) by (simp add: flagsExclusive_def)
  then have "\<not> allExclusive ((pages w)(oid \<mapsto> p\<lparr>isFavorite := True\<rparr>))"
    unfolding allExclusive_def by (metis fun_upd_same)
  then show "\<not> allExclusive (pages (snd (app e \<lparr>session = Some uid, route = ToggleFavorite pid,
                                              body = rb, generatedId = g\<rparr> w)))"
    unfolding 1 by simp
qed

lemma aliceWorld_exclusive: "allExclusive (pages aliceWorld)"
  by (simp add: allExclusive_def aliceWorld_def alicePage_def flagsExclusive_def)

text \<open>
  Claim C9 at a failing input. Alice's page is a favorite and not archived. She toggles
  archive: the route stores the page archived and no longer favorite, as its comment
  says (\<open>can't be trash + favorite\<close>), and answers with \<open>isArchived\<close> true. She then
  toggles favorite on the archived page: the route answers 200 with \<open>isFavorite\<close>
  true and stores the page archived and favorite at once. The favorite toggle never
  reads \<open>isArchived\<close>.
\<close>

theorem favorite_toggle_breaks_exclusion:
  "isFavorite alicePage \<and> \<not> isArchived alicePage
   \<and> app (replying []) (requestOf alice (ToggleArchive alicePageId) JNull) aliceWorld
     = (success 200 (ArchivedData True),
        \<lparr>pages = Map.empty(16 \<mapsto> alicePage\<lparr>isArchived := True, isFavorite := False\<rparr>), aiCalls = []\<rparr>)
   \<and> app (replying []) (requestOf alice (ToggleFavorite alicePageId) JNull)
        \<lparr>pages = Map.empty(16 \<mapsto> alicePage\<lparr>isArchived := True, isFavorite := False\<rparr>), aiCalls = []\<rparr>
     = (success 200 (FavoriteData True),
        \<lparr>pages = Map.empty(16 \<mapsto> alicePage\<lparr>isArchived := True, isFavorite := True\<rparr>), aiCalls = []\<rparr>)
   \<and> isArchived (alicePage\<lparr>isArchived := True, isFavorite := True\<rparr>)
   \<and> isFavorite (alicePage\<lparr>isArchived := True, isFavorite := True\<rparr>)"
proof -
  have a: "app (replying []) (requestOf alice (ToggleArchive alicePageId) JNull) aliceWorld
     = (success 200 (ArchivedData True),
        \<lparr>pages = Map.empty(16 \<mapsto> alicePage\<lparr>isArchived := True, isFavorite := False\<rparr>), aiCalls = []\<rparr>)"
    by (simp add: app_def requestOf_def patchArchive_def replying_def cast_alicePageId findOne_def
          aliceWorld_def alicePage_def Let_def)
  have f: "app (replying []) (requestOf alice (ToggleFavorite alicePageId) JNull)
        \<lparr>pages = Map.empty(16 \<mapsto> alicePage\<lparr>isArchived := True, isFavorite := False\<rparr>), aiCalls = []\<rparr>
     = (success 200 (FavoriteData True),
        \<lparr>pages = Map.empty(16 \<mapsto> alicePage\<lparr>isArchived := True, isFavorite := True\<rparr>), aiCalls = []\<rparr>)"
    by (simp add: app_def requestOf_def patchFavorite_def replying_def cast_alicePageId findOne_def
          alicePage_def Let_def)
  show ?thesis
    unfolding a f by (simp add: alicePage_def)
qed

text \<open>
  On the page routes with an \<open>:id\<close>, a page of another owner answers as no page
  does, and stays as it is.
\<close>

lemma page_routes_hide_unowned_pages:
  assumes "session rq = Some uid"
    and "route rq \<in> {GetPage pid, UpdatePage pid, ToggleFavorite pid, ToggleArchive pid, DeletePage pid}"
    and "castObjectId e pid = Inr oid"
    and "pages w oid = Some p" and "userId p \<noteq> uid"
  shows "fst (app e rq w) = fst (app e rq (w\<lparr>pages := (pages w)(oid := None)\<rparr>))
         \<and> snd (app e rq w) = w"
proof -
  have f: "findOne oid uid (pages w) = None" "findOne oid uid ((pages w)(oid := None)) = None"
    using assms(4,5) by (simp_all add: findOne_def)
  from assms(2) consider "route rq = GetPage pid" | "route rq = UpdatePage pid"
    | "route rq = ToggleFavorite pid" | "route rq = ToggleArchive pid" | "route rq = DeletePage pid"
    by auto
  then show ?thesis
  proof cases
    case 1
    with assms(1,3) f show ?thesis
      by (simp add: app_def getPage_def split: option.splits)
  next
    case 2
    with assms(1,3) f show ?thesis
      by (simp add: app_def patchPage_def split: option.splits requestBody.splits sum.splits)
  next
    case 3
    with assms(1,3) f show ?thesis
      by (simp add: app_def patchFavorite_def split: option.splits)
  next
    case 4
    with assms(1,3) f show ?thesis
      by (simp add: app_def patchArchive_def split: option.splits)
  next
    case 5
    with assms(1,3) f show ?thesis
      by (simp add: app_def deletePage_def split: option.splits)
  qed
qed

lemma page_routes_hide_unowned_pages_example:
  "fst (app (replying []) (requestOf bob (DeletePage alicePageId) JNull) aliceWorld)
     = fst (app (replying []) (requestOf bob (DeletePage alicePageId) JNull)
              (aliceWorld\<lparr>pages := (pages aliceWorld)(16 := None)\<rparr>))
   \<and> snd (app (replying []) (requestOf bob (DeletePage alicePageId) JNull) aliceWorld) = aliceWorld
   \<and> fst (app (replying []) (requestOf bob (DeletePage alicePageId) JNull) aliceWorld)
     = failure 404 ''Page not found''"
proof -
  let ?rq = "requestOf bob (DeletePage alicePageId) JNull"
  have 1: "session ?rq = Some bob" by (simp add: requestOf_def)
  have 2: "route ?rq \<in> {GetPage alicePageId, UpdatePage alicePageId, ToggleFavorite alicePageId,
      ToggleArchive alicePageId, DeletePage alicePageId}" by (simp add: requestOf_def)
  have 3: "castObjectId (replying []) alicePageId = Inr 16"
    by (simp add: replying_def cast_alicePageId)
  have 4: "pages aliceWorld 16 = Some alicePage" by (simp add: aliceWorld_def)
  have 5: "userId alicePage \<noteq> bob" by (simp add: alicePage_def alice_def bob_def)
  have 6: "fst (app (replying []) ?rq (aliceWorld\<lparr>pages := (pages aliceWorld)(16 := None)\<rparr>))
      = failure 404 ''Page not found''"
    by (simp add: app_def requestOf_def deletePage_def replying_def cast_alicePageId findOne_def)
  from page_routes_hide_unowned_pages[OF 1 2 3 4 5] 6 show ?thesis by simp
qed

text \<open>
  \<open>PATCH /pages/:id\<close>: a value the driver cannot cast to the type of its path is a
  500 and changes nothing; in the deployment, Alice sets the title of her page, and the
  key \<open>isArchived\<close>, which is not in the whitelist, is left out.
\<close>

lemma patchPage_cast_error:
  assumes "connectDB e = None" "hasKeys b" "validatedData b \<noteq> []"
    and "castObjectId e pid = Inr oid" "castUpdate e (validatedData b) = Inl err"
  shows "app e \<lparr>session = Some uid, route = UpdatePage pid, body = Decoded b, generatedId = g\<rparr> w
           = (failure 500 ''Failed to update page'', w)"
  using assms by (simp add: app_def patchPage_def)

lemma patchPage_example:
  "app (replying []) (requestOf alice (UpdatePage alicePageId)
        (JObject [(str ''title'', JString (str ''Plans 2'')), (str ''isArchived'', JBool True)]))
     aliceWorld
   = (success 200 (PageData 16 (alicePage\<lparr>title := JString (str ''Plans 2'')\<rparr>)),
      aliceWorld\<lparr>pages := (pages aliceWorld)(16 \<mapsto> alicePage\<lparr>title := JString (str ''Plans 2'')\<rparr>)\<rparr>)"
  by (simp add: app_def requestOf_def patchPage_def hasKeys_def validatedData_def allowedFields_def
        property_def memberOf_def castTyped_def replying_def cast_alicePageId
        findOne_def aliceWorld_def alicePage_def setFields_def setField_def)

text \<open>
  Claim C1 at a failing input. Bob, authenticated, asks for Alice's page and gets 404,
  as \<open>page_routes_hide_unowned_pages\<close> says; he posts its id to
  \<open>/ai/summarize\<close> and gets 200, and the summary of Alice's page is now the reply of
  the provider: \<open>findByIdAndUpdate\<close> filters on the \<open>_id\<close> alone.
\<close>

theorem summarize_overwrites_unowned_page:
  "app (replying (str ''Overwritten.''))
       (requestOf bob (GetPage alicePageId) JNull) aliceWorld
     = (failure 404 ''Page not found'', aliceWorld)
   \<and> fst (app (replying (str ''Overwritten.''))
       (requestOf bob Summarize (aiBody (str ''Twenty characters or more.''))) aliceWorld)
     = success 200 (ResultText (str ''Overwritten.''))
   \<and> pages (snd (app (replying (str ''Overwritten.''))
       (requestOf bob Summarize (aiBody (str ''Twenty characters or more.''))) aliceWorld)) 16
     = Some (alicePage\<lparr>summary := JString (str ''Overwritten.'')\<rparr>)
   \<and> summary alicePage = JNull"
proof -
  have g: "app (replying (str ''Overwritten.'')) (requestOf bob (GetPage alicePageId) JNull) aliceWorld
     = (failure 404 ''Page not found'', aliceWorld)"
    by (simp add: app_def requestOf_def getPage_def replying_def cast_alicePageId findOne_def
          aliceWorld_def alicePage_def alice_def bob_def)
  have s: "app (replying (str ''Overwritten.''))
       (requestOf bob Summarize (aiBody (str ''Twenty characters or more.''))) aliceWorld
     = (success 200 (ResultText (str ''Overwritten.'')),
        \<lparr>pages = Map.empty(16 \<mapsto> alicePage\<lparr>summary := JString (str ''Overwritten.'')\<rparr>),
         aiCalls = [summarizeRequest (aiBody (str ''Twenty characters or more.''))]\<rparr>)"
    by (simp add: app_def requestOf_def postSummarize_def aiBody_fields stringOr_def
          alicePageId_nonempty replying_def cast_alicePageId Let_def aliceWorld_def
          replyText_def trim_def isWhiteSpace_def findByIdAndUpdate_def)
  show ?thesis
    unfolding g s by (simp add: alicePage_def)
qed

section \<open>Properties of the Debounced Save Controller\<close>

lemma edits_rapid:
  assumes "onSaveCalls ed = []"
    and "saveTimer ed = None \<or> (\<exists>bl. saveTimer ed = Some (t0 + 1500, bl))"
    and "now ed \<le> t" "t0 \<le> t" "t < t0 + 1500"
    and "rapidAfter t es"
  shows "onSaveCalls (edits ((t, d) # es) ed) = []
         \<and> saveTimer (edits ((t, d) # es) ed)
             = Some (fst (last ((t, d) # es)) + 1500, snd (last ((t, d) # es)))
         \<and> now (edits ((t, d) # es) ed) = fst (last ((t, d) # es))
         \<and> document (edits ((t, d) # es) ed) = snd (last ((t, d) # es))"
  using assms
proof (induction es arbitrary: ed t d t0)
  case Nil
  then show ?case
    by (auto simp: edit_def handleChange_def passTime_def Let_def max_def)
next
  case (Cons e es)
  obtain t' d' where e: "e = (t', d')" by (cases e)
  let ?ed1 = "edit t d ed"
  have 1: "onSaveCalls ?ed1 = []" "saveTimer ?ed1 = Some (t + 1500, d)" "now ?ed1 = t"
    using Cons.prems by (auto simp: edit_def handleChange_def passTime_def Let_def max_def)
  from Cons.prems(6) e have r: "t \<le> t'" "t' < t + 1500" "rapidAfter t' es" by auto
  have "onSaveCalls (edits ((t', d') # es) ?ed1) = []
         \<and> saveTimer (edits ((t', d') # es) ?ed1)
             = Some (fst (last ((t', d') # es)) + 1500, snd (last ((t', d') # es)))
         \<and> now (edits ((t', d') # es) ?ed1) = fst (last ((t', d') # es))
         \<and> document (edits ((t', d') # es) ?ed1) = snd (last ((t', d') # es))"
    by (rule Cons.IH[of ?ed1 t t' d']) (use 1 r in auto)
  then show ?case by (simp add: e)
qed

text \<open>
  Claim C7. In a session that starts with no pending timeout and no save, after a
  sequence of edits each less than 1500 ms after the one before, \<open>onSave\<close> has been
  called exactly once as soon as 1500 ms have passed since the last edit, at that
  time and with the blocks of the last edit, which are the document of that moment;
  before that it has not been called.
\<close>

theorem debounce_saves_last_edit_once:
  assumes "saveTimer ed = None" and "onSaveCalls ed = []" and "now ed \<le> t"
    and "rapidAfter t es"
  shows "onSaveCalls (passTime T (edits ((t, d) # es) ed))
         = (if fst (last ((t, d) # es)) + 1500 \<le> T
            then [(fst (last ((t, d) # es)) + 1500, snd (last ((t, d) # es)))]
            else [])
         \<and> document (passTime T (edits ((t, d) # es) ed)) = snd (last ((t, d) # es))"
proof -
  from edits_rapid[where ed=ed and ?t0.0=t and t=t and es=es and d=d] assms
  have "onSaveCalls (edits ((t, d) # es) ed) = []
         \<and> saveTimer (edits ((t, d) # es) ed)
             = Some (fst (last ((t, d) # es)) + 1500, snd (last ((t, d) # es)))
         \<and> document (edits ((t, d) # es) ed) = snd (last ((t, d) # es))"
    by simp
  then show ?thesis by (simp add: passTime_def)
qed

text \<open>The theorem at three edits, 100, 900 and 1400 ms into the session.\<close>

theorem debounce_saves_last_edit_once_witness:
  "onSaveCalls (passTime 3000
      (edits [(100, para ''H''), (900, para ''He''), (1400, para ''Hey'')]
         \<lparr>now = 0, document = [], saveTimer = None, liveBlocks = [], onSaveCalls = []\<rparr>))
     = [(2900, para ''Hey'')]
   \<and> onSaveCalls (passTime 2899
      (edits [(100, para ''H''), (900, para ''He''), (1400, para ''Hey'')]
         \<lparr>now = 0, document = [], saveTimer = None, liveBlocks = [], onSaveCalls = []\<rparr>))
     = []"
proof -
  let ?ed = "\<lparr>now = 0, document = [], saveTimer = None, liveBlocks = [], onSaveCalls = []\<rparr>"
  have r: "rapidAfter 100 [(900, para ''He''), (1400, para ''Hey'')]" by simp
  have a: "saveTimer ?ed = None" "onSaveCalls ?ed = []" "now ?ed \<le> 100" by simp_all
  from debounce_saves_last_edit_once[OF a r, of 3000 "para ''H''"]
       debounce_saves_last_edit_once[OF a r, of 2899 "para ''H''"]
  show ?thesis by simp
qed

end
